theory Spec2Isabelle
  imports Complex_Main "HOL-Library.Multiset" "HOL-Library.Signed_Division"
    "HOL-Library.Product_Lexorder"
begin

section \<open>Go values used by the obstacles-distance service\<close>

subsection \<open>float64\<close>

text \<open>
  A Go \<^verbatim>\<open>float64\<close> is an IEEE 754 binary64 number: a NaN, an infinity or a finite number.
  The comparison \<^verbatim>\<open><\<close> is the IEEE one: it is false as soon as one side is NaN. The two
  zeros are one value here: they compare equal, and a square or a sum of squares is never
  the negative one. The finite values of the type are the numbers that rounding leaves
  unchanged; the arithmetic is defined on every number, and nothing below requires a
  coordinate to be one of them.
\<close>

datatype float64 = NaN | NegInf | Fin real | PosInf

definition MaxFinite :: real where
  "MaxFinite = (2 ^ 53 - 1) * 2 ^ 971"

text \<open>\<^verbatim>\<open>math.MaxFloat64\<close>, the largest finite float64.\<close>

definition MaxFloat64 :: float64 where
  "MaxFloat64 = Fin MaxFinite"

fun f64_less :: "float64 \<Rightarrow> float64 \<Rightarrow> bool" where
  "f64_less NaN b = False"
| "f64_less NegInf b = (case b of Fin r \<Rightarrow> True | PosInf \<Rightarrow> True | _ \<Rightarrow> False)"
| "f64_less (Fin a) b = (case b of Fin r \<Rightarrow> a < r | PosInf \<Rightarrow> True | _ \<Rightarrow> False)"
| "f64_less PosInf b = False"

text \<open>The comparison \<^verbatim>\<open><=\<close>, false as well when one side is NaN.\<close>

definition f64_le :: "float64 \<Rightarrow> float64 \<Rightarrow> bool" where
  "f64_le a b = (f64_less a b \<or> (a = b \<and> a \<noteq> NaN))"

text \<open>
  An operation returns its exact result rounded to the nearest float64, to the one with an
  even mantissa when two are equally near. \<open>roundEven\<close> rounds a number to the nearest
  integer in that way.
\<close>

definition roundEven :: "real \<Rightarrow> int" where
  "roundEven x =
     (let f = \<lfloor>x\<rfloor>; d = x - of_int f
      in if d < 1 / 2 then f else if 1 / 2 < d then f + 1 else if even f then f else f + 1)"

text \<open>
  The exponent of a number \<open>r\<close> is the \<open>e\<close> with \<open>2\<^sup>e \<le> \<bar>r\<bar> < 2\<^sup>e\<^sup>+\<^sup>1\<close>, but not less than
  \<open>-1022\<close>, the exponent of the subnormal numbers. It is searched from 0 on, upwards or
  downwards; the search upwards ends at 1024, from where on every number rounds to an
  infinity.
\<close>

function binadeUp :: "real \<Rightarrow> int \<Rightarrow> int" where
  "binadeUp x e = (if e < 1024 \<and> 2 powi (e + 1) \<le> x then binadeUp x (e + 1) else e)"
  by pat_completeness auto
termination
  by (relation "measure (\<lambda>(x, e). nat (1024 - e))") auto

function binadeDown :: "real \<Rightarrow> int \<Rightarrow> int" where
  "binadeDown x e = (if - 1022 < e \<and> x < 2 powi e then binadeDown x (e - 1) else e)"
  by pat_completeness auto
termination
  by (relation "measure (\<lambda>(x, e). nat (e + 1022))") auto

declare binadeUp.simps [simp del] binadeDown.simps [simp del]

definition exponent :: "real \<Rightarrow> int" where
  "exponent r = (if 1 \<le> \<bar>r\<bar> then binadeUp \<bar>r\<bar> 0 else binadeDown \<bar>r\<bar> 0)"

text \<open>
  The float64 nearest to the number \<open>r\<close>: the multiple of \<open>2\<^sup>e\<^sup>-\<^sup>5\<^sup>2\<close> nearest to \<open>r\<close>, where \<open>e\<close>
  is the exponent of \<open>r\<close> (a mantissa of 53 bits); an infinity when that multiple is
  \<open>2\<^sup>1\<^sup>0\<^sup>2\<^sup>4\<close> or beyond. A number too small for the subnormal numbers rounds to zero.
\<close>

definition round64 :: "real \<Rightarrow> float64" where
  "round64 r =
     (let q = 2 powi (exponent r - 52); y = q * of_int (roundEven (r / q))
      in if 2 ^ 1024 \<le> \<bar>y\<bar> then (if 0 < r then PosInf else NegInf) else Fin y)"

fun f64_mul :: "float64 \<Rightarrow> float64 \<Rightarrow> float64" where
  "f64_mul (Fin a) (Fin b) = round64 (a * b)"
| "f64_mul (Fin a) PosInf = (if a = 0 then NaN else if 0 < a then PosInf else NegInf)"
| "f64_mul (Fin a) NegInf = (if a = 0 then NaN else if 0 < a then NegInf else PosInf)"
| "f64_mul PosInf (Fin b) = (if b = 0 then NaN else if 0 < b then PosInf else NegInf)"
| "f64_mul NegInf (Fin b) = (if b = 0 then NaN else if 0 < b then NegInf else PosInf)"
| "f64_mul PosInf PosInf = PosInf"
| "f64_mul NegInf NegInf = PosInf"
| "f64_mul PosInf NegInf = NegInf"
| "f64_mul NegInf PosInf = NegInf"
| "f64_mul NaN b = NaN"
| "f64_mul a NaN = NaN"

fun f64_add :: "float64 \<Rightarrow> float64 \<Rightarrow> float64" where
  "f64_add (Fin a) (Fin b) = round64 (a + b)"
| "f64_add (Fin a) PosInf = PosInf"
| "f64_add (Fin a) NegInf = NegInf"
| "f64_add PosInf (Fin b) = PosInf"
| "f64_add NegInf (Fin b) = NegInf"
| "f64_add PosInf PosInf = PosInf"
| "f64_add NegInf NegInf = NegInf"
| "f64_add PosInf NegInf = NaN"
| "f64_add NegInf PosInf = NaN"
| "f64_add NaN b = NaN"
| "f64_add a NaN = NaN"

subsection \<open>r3.Vector and point clouds\<close>

record Vector =
  X :: float64
  Y :: float64
  Z :: float64

text \<open>The zero value \<^verbatim>\<open>r3.Vector{}\<close>.\<close>

definition zeroVector :: Vector where
  "zeroVector = \<lparr>X = Fin 0, Y = Fin 0, Z = Fin 0\<rparr>"

text \<open>\<^verbatim>\<open>pointcloud.NewVector\<close>.\<close>

definition NewVector :: "float64 \<Rightarrow> float64 \<Rightarrow> float64 \<Rightarrow> Vector" where
  "NewVector x y z = \<lparr>X = x, Y = y, Z = z\<rparr>"

text \<open>
  \<^verbatim>\<open>Norm2\<close> of package r3 is the dot product of the vector with itself,
  \<^verbatim>\<open>float64(v.X*v.X) + float64(v.Y*v.Y) + float64(v.Z*v.Z)\<close>, evaluated from left to
  right: each of the three products and each of the two sums is rounded to a float64.
\<close>

definition Norm2 :: "Vector \<Rightarrow> float64" where
  "Norm2 v = f64_add (f64_add (f64_mul (X v) (X v)) (f64_mul (Y v) (Y v))) (f64_mul (Z v) (Z v))"

text \<open>
  A point cloud is given by its points in the order in which \<^verbatim>\<open>Iterate\<close> hands them to
  the callback; the auxiliary data of a point is never read by this service.
\<close>

type_synonym PointCloud = "Vector list"

definition Size :: "PointCloud \<Rightarrow> nat" where
  "Size cloud = length cloud"

text \<open>
  \<^verbatim>\<open>cloud.Iterate(0, 0, fn)\<close> calls \<^verbatim>\<open>fn\<close> on every point, one after the other, and stops
  early when \<^verbatim>\<open>fn\<close> returns false. The variables the callback captures are the state
  \<open>s\<close>. \<open>visited\<close> is the sequence of points the callback has been called on.
\<close>

fun Iterate :: "PointCloud \<Rightarrow> (Vector \<Rightarrow> 's \<Rightarrow> bool \<times> 's) \<Rightarrow> 's \<Rightarrow> 's" where
  "Iterate [] fn s = s"
| "Iterate (pt # rest) fn s =
     (case fn pt s of (continue, s') \<Rightarrow> if continue then Iterate rest fn s' else s')"

fun visited :: "PointCloud \<Rightarrow> (Vector \<Rightarrow> 's \<Rightarrow> bool \<times> 's) \<Rightarrow> 's \<Rightarrow> Vector list" where
  "visited [] fn s = []"
| "visited (pt # rest) fn s =
     (case fn pt s of (continue, s') \<Rightarrow> if continue then pt # visited rest fn s' else [pt])"

section \<open>The closest point of a cloud\<close>

text \<open>
  The callback of \<^verbatim>\<open>getClosestPoint\<close>; its state is the pair of the captured variables
  \<^verbatim>\<open>minDistance\<close> and \<^verbatim>\<open>minPoint\<close>.
\<close>

definition closestStep :: "Vector \<Rightarrow> float64 \<times> Vector \<Rightarrow> bool \<times> (float64 \<times> Vector)" where
  "closestStep pt s =
     (case s of (minDistance, minPoint) \<Rightarrow>
        let dist = Norm2 pt
        in if f64_less dist minDistance then (True, (dist, pt)) else (True, (minDistance, minPoint)))"

definition getClosestPoint :: "PointCloud \<Rightarrow> Vector" where
  "getClosestPoint cloud = snd (Iterate cloud closestStep (MaxFloat64, zeroVector))"

section \<open>The median of the candidates\<close>

text \<open>
  An \<^verbatim>\<open>error\<close> made by \<^verbatim>\<open>errors.New\<close> carries its message. \<open>Errorf format arg\<close> is the
  error \<^verbatim>\<open>errors.Errorf(format, arg)\<close>, kept as its format and its argument: the message
  is the format with the argument in the place of its verb, as package fmt writes it. A
  run-time panic is kept apart from the errors a function returns.
\<close>

datatype error = Error string | Errorf string string | Panic string

text \<open>
  \<^verbatim>\<open>sort.Sort\<close> of the Go library (Go 1.19 and later) runs \<^verbatim>\<open>insertionSort\<close> on a slice
  of at most twelve elements:
  \<^verbatim>\<open>for i := a + 1; i < b; i++ { for j := i; j > a && data.Less(j, j-1); j-- { data.Swap(j, j-1) } }\<close>.
  The inner loop moves the new element \<open>x\<close> towards the front for as long as it is less
  than its left neighbour. \<open>sink\<close> is that loop, on the part of the slice that is already
  in order, held nearest neighbour first.
\<close>

fun sink :: "('a \<Rightarrow> 'a \<Rightarrow> bool) \<Rightarrow> 'a \<Rightarrow> 'a list \<Rightarrow> 'a list" where
  "sink lt x [] = [x]"
| "sink lt x (y # front) = (if lt x y then y # sink lt x front else x # y # front)"

definition insertionSort :: "('a \<Rightarrow> 'a \<Rightarrow> bool) \<Rightarrow> 'a list \<Rightarrow> 'a list" where
  "insertionSort lt data = rev (foldl (\<lambda>front x. sink lt x front) [] data)"

text \<open>\<^verbatim>\<open>points.Less\<close>: \<^verbatim>\<open>p[i].Norm2() < p[j].Norm2()\<close>.\<close>

definition Less :: "Vector \<Rightarrow> Vector \<Rightarrow> bool" where
  "Less a b = f64_less (Norm2 a) (Norm2 b)"

text \<open>
  What this service cannot see of the libraries it calls is a parameter:
  \<^item> \<open>longSort v\<close>: the slice \<^verbatim>\<open>sort.Sort(points(v))\<close> leaves when \<open>v\<close> has more than twelve
    elements; there the library runs a pattern-defeating quicksort, which is not stable;
  \<^item> \<open>groupSizes n\<close>: the sizes of the groups into which \<^verbatim>\<open>utils.GroupWorkParallel\<close> cuts the
    work items \<open>0, \<dots>, n - 1\<close>, in the order of the groups; each group is a range
    \<^verbatim>\<open>[from, to)\<close>, and what the sizes do not cover goes to one last group;
  \<^item> \<open>groupWorkErr\<close>: the error \<^verbatim>\<open>GroupWorkParallel\<close> returns, if any;
  \<^item> \<open>setErr\<close>: the error \<^verbatim>\<open>Set\<close> of the returned point cloud returns, if any.
\<close>

record Library =
  longSort :: "Vector list \<Rightarrow> Vector list"
  groupSizes :: "nat \<Rightarrow> nat list"
  groupWorkErr :: "error option"
  setErr :: "Vector \<Rightarrow> error option"

definition sortVectors :: "Library \<Rightarrow> Vector list \<Rightarrow> Vector list" where
  "sortVectors lib v = (if length v \<le> 12 then insertionSort Less v else longSort lib v)"

text \<open>
  What the documentation of \<^verbatim>\<open>sort.Sort\<close> promises of the slice it leaves: the elements
  are those of the slice it was given, since it moves them with \<^verbatim>\<open>Swap\<close> only, and they are
  in ascending order as determined by \<^verbatim>\<open>Less\<close>: no element is less than one before it.
  Only on a slice of more than twelve elements is this a requirement on the library.
\<close>

definition sortContract :: "Library \<Rightarrow> Vector list \<Rightarrow> bool" where
  "sortContract lib v =
     (12 < length v \<longrightarrow>
        mset (longSort lib v) = mset v \<and> sorted_wrt (\<lambda>a b. \<not> Less b a) (longSort lib v))"

text \<open>
  \<^verbatim>\<open>getMedianPoint\<close>. Go's integer division truncates towards zero, so the index of the
  empty slice is \<open>(0 - 1) / 2 = 0\<close>, and reading it panics.
\<close>

definition getMedianPoint :: "Library \<Rightarrow> Vector list \<Rightarrow> error + Vector" where
  "getMedianPoint lib pts =
     (let pts' = sortVectors lib pts;
          index = (int (length pts') - 1) sdiv 2
      in if 0 \<le> index \<and> index < int (length pts') then Inr (pts' ! nat index)
         else Inl (Panic ''index out of range''))"

fun groups :: "nat list \<Rightarrow> 'a list \<Rightarrow> 'a list list" where
  "groups [] work = [work]"
| "groups (n # ns) work = take n work # groups ns (drop n work)"

text \<open>
  \<^verbatim>\<open>GroupWorkParallel\<close> with the callbacks of \<^verbatim>\<open>medianFromPointClouds\<close>: every group
  appends the result of its members, in their order, to a slice of its own and stores
  that slice at its own index of \<^verbatim>\<open>results\<close>. No two groups share a variable, so the
  outcome does not depend on how the groups are scheduled.
\<close>

definition GroupWorkParallel :: "Library \<Rightarrow> 'a list \<Rightarrow> ('a \<Rightarrow> 'b) \<Rightarrow> error + 'b list list" where
  "GroupWorkParallel lib work member =
     (case groupWorkErr lib of
        Some err \<Rightarrow> Inl err
      | None \<Rightarrow> Inr (map (map member) (groups (groupSizes lib (length work)) work)))"

definition medianFromPointClouds :: "Library \<Rightarrow> PointCloud list \<Rightarrow> error + Vector" where
  "medianFromPointClouds lib clouds =
     (case GroupWorkParallel lib clouds getClosestPoint of
        Inl err \<Rightarrow> Inl err
      | Inr results \<Rightarrow>
          let candidates = concat results
          in if length candidates = 0
             then Inl (Error ''point cloud list is empty, could not find median point'')
             else getMedianPoint lib candidates)"

section \<open>The service\<close>

definition DefaultNumQueries :: int where
  "DefaultNumQueries = 10"

record DistanceDetectorConfig =
  NumQueries :: int
  DefaultCamera :: string

text \<open>
  \<^verbatim>\<open>Validate\<close> writes the default into the configuration it is called on: it returns the
  configuration next to its result.
\<close>

definition Validate ::
  "DistanceDetectorConfig \<Rightarrow> string \<Rightarrow> (error + string list \<times> string list) \<times> DistanceDetectorConfig" where
  "Validate config path =
     (let config' = (if NumQueries config = 0 then config\<lparr>NumQueries := DefaultNumQueries\<rparr> else config)
      in if NumQueries config' < 1 \<or> 20 < NumQueries config'
         then (Inl (Error ''invalid number of queries, pick a number between 1 and 20''), config')
         else if DefaultCamera config' \<noteq> ''''
              then (Inr ([DefaultCamera config'], []), config')
              else (Inr ([], []), config'))"

text \<open>
  A camera: \<open>NextPointCloud cam k\<close> is what the call number \<open>k\<close> of \<^verbatim>\<open>NextPointCloud\<close>
  returns (the first call is number 0), \<open>DecodeImage\<close> what decoding an image from it
  returns. Functions that query a camera return, next to their result, how many calls of
  \<^verbatim>\<open>NextPointCloud\<close> they have made.
\<close>

record 'i Camera =
  NextPointCloud :: "nat \<Rightarrow> error + PointCloud"
  DecodeImage :: "error + 'i"

record Geometry =
  center :: Vector
  label :: string

record Object =
  PointCloud :: PointCloud
  Geometry :: Geometry

text \<open>
  The loop \<^verbatim>\<open>for i := 0; i < conf.NumQueries; i++\<close> of the segmenter, from the value \<open>i\<close>
  of its counter on; \<open>calls\<close> counts the calls of \<^verbatim>\<open>NextPointCloud\<close> made so far.
\<close>

function queryLoop ::
  "'i Camera \<Rightarrow> int \<Rightarrow> int \<Rightarrow> PointCloud list \<Rightarrow> nat \<Rightarrow> (error + PointCloud list) \<times> nat" where
  "queryLoop src n i clouds calls =
     (if i < n
      then (case NextPointCloud src calls of
              Inl err \<Rightarrow> (Inl err, Suc calls)
            | Inr nxtPC \<Rightarrow>
                if Size nxtPC = 0 then queryLoop src n (i + 1) clouds (Suc calls)
                else queryLoop src n (i + 1) (clouds @ [nxtPC]) (Suc calls))
      else (Inr clouds, calls))"
  by pat_completeness auto
termination
  by (relation "measure (\<lambda>(src, n, i, clouds, calls). nat (n - i))") auto

declare queryLoop.simps [simp del]

text \<open>
  The segmenter that \<^verbatim>\<open>registerObstacleDistanceDetector\<close> builds. \<^verbatim>\<open>make\<close> panics on a
  negative capacity (the limits of memory are not modelled). The object it returns holds a
  point cloud of the single median point and the geometry of that point, labelled
  \<^verbatim>\<open>"obstacle"\<close>.
\<close>

definition segmenter ::
  "Library \<Rightarrow> DistanceDetectorConfig \<Rightarrow> 'i Camera \<Rightarrow> (error + Object list) \<times> nat" where
  "segmenter lib conf src =
     (if NumQueries conf < 0 then (Inl (Panic ''makeslice: cap out of range''), 0)
      else (case queryLoop src (NumQueries conf) 0 [] 0 of
              (Inl err, calls) \<Rightarrow> (Inl err, calls)
            | (Inr clouds, calls) \<Rightarrow>
                (if length clouds = 0
                 then (Inl (Error ''none of the input point clouds contained any points''), calls)
                 else (case medianFromPointClouds lib clouds of
                         Inl err \<Rightarrow> (Inl err, calls)
                       | Inr median \<Rightarrow>
                           (let vector = NewVector (X median) (Y median) (Z median);
                                pt = \<lparr>center = vector, label = ''obstacle''\<rparr>
                            in (case setErr lib vector of
                                  Some err \<Rightarrow> (Inl err, calls)
                                | None \<Rightarrow> (Inr [\<lparr>PointCloud = [vector], Geometry = pt\<rparr>], calls)))))))"

text \<open>
  The service. Its field \<^verbatim>\<open>segmenter\<close> is \<open>segmenter_of\<close>; \<open>deps\<close> is
  \<^verbatim>\<open>camera.FromDependencies\<close> on the dependencies of the service: the camera of that name,
  or an error.
\<close>

record 'i obstacleDistanceService =
  segmenter_of :: "'i Camera \<Rightarrow> (error + Object list) \<times> nat"
  defaultCamera :: "'i Camera option"
  deps :: "string \<Rightarrow> error + 'i Camera"

definition registerObstacleDistanceDetector ::
  "Library \<Rightarrow> DistanceDetectorConfig option \<Rightarrow> (string \<Rightarrow> error + 'i Camera)
     \<Rightarrow> error + 'i obstacleDistanceService" where
  "registerObstacleDistanceDetector lib conf ds =
     (case conf of
        None \<Rightarrow> Inl (Error ''config for obstacles_distance cannot be nil'')
      | Some c \<Rightarrow>
          if DefaultCamera c \<noteq> ''''
          then (case ds (DefaultCamera c) of
                  Inl err \<Rightarrow> Inl (Errorf ''could not find camera %q'' (DefaultCamera c))
                | Inr cam \<Rightarrow>
                    Inr \<lparr>segmenter_of = segmenter lib c, defaultCamera = Some cam, deps = ds\<rparr>)
          else Inr \<lparr>segmenter_of = segmenter lib c, defaultCamera = None, deps = ds\<rparr>)"

definition GetObjectPointClouds ::
  "'i obstacleDistanceService \<Rightarrow> string \<Rightarrow> (error + Object list) \<times> nat" where
  "GetObjectPointClouds s cameraName =
     (if cameraName \<noteq> ''''
      then (case deps s cameraName of
              Inl err \<Rightarrow> (Inl err, 0)
            | Inr cam \<Rightarrow> segmenter_of s cam)
      else case defaultCamera s of
             Some cam \<Rightarrow> segmenter_of s cam
           | None \<Rightarrow> (Inl (Error ''no camera specified''), 0))"

record CaptureOptions =
  ReturnImage :: bool
  ReturnObject :: bool

record 'i VisCapture =
  Image :: "'i option"
  Objects :: "Object list"
  Detections :: "unit list"
  Classifications :: "unit list"

definition emptyVisCapture :: "'i VisCapture" where
  "emptyVisCapture = \<lparr>Image = None, Objects = [], Detections = [], Classifications = []\<rparr>"

text \<open>
  \<^verbatim>\<open>CaptureAllFromCamera\<close> returns its result, the number of calls of \<^verbatim>\<open>NextPointCloud\<close>
  and the number of images it has asked the camera for.
\<close>

definition CaptureAllFromCamera ::
  "'i obstacleDistanceService \<Rightarrow> string \<Rightarrow> CaptureOptions \<Rightarrow> (error + 'i VisCapture) \<times> nat \<times> nat" where
  "CaptureAllFromCamera s cameraName captureOptions =
     (case (if cameraName \<noteq> '''' then deps s cameraName
            else case defaultCamera s of
                   Some cam \<Rightarrow> Inr cam
                 | None \<Rightarrow> Inl (Error ''no camera specified'')) of
        Inl err \<Rightarrow> (Inl err, 0, 0)
      | Inr cam \<Rightarrow>
          (case (if ReturnImage captureOptions
                 then (case DecodeImage cam of
                         Inl err \<Rightarrow> (Inl err, 1)
                       | Inr img \<Rightarrow> (Inr (emptyVisCapture\<lparr>Image := Some img\<rparr>), 1))
                 else (Inr emptyVisCapture, 0)) of
             (Inl err, images) \<Rightarrow> (Inl err, 0, images)
           | (Inr result, images) \<Rightarrow>
               if ReturnObject captureOptions
               then (case GetObjectPointClouds s cameraName of
                       (Inl err, calls) \<Rightarrow> (Inl err, calls, images)
                     | (Inr objects, calls) \<Rightarrow> (Inr (result\<lparr>Objects := objects\<rparr>), calls, images))
               else (Inr result, 0, images)))"

subsection \<open>The methods the service does not implement\<close>

text \<open>
  The methods \<^verbatim>\<open>Detections\<close> and \<^verbatim>\<open>Classifications\<close> are \<open>Detections_of\<close> and
  \<open>Classifications_of\<close> here: the fields of \<^verbatim>\<open>VisCapture\<close> have their names.
\<close>

definition errUnimplemented :: error where
  "errUnimplemented = Error ''obstacles distance service does not implement this method''"

definition NewClientFromConn ::
  "'i obstacleDistanceService \<Rightarrow> 'conn \<Rightarrow> string \<Rightarrow> string \<Rightarrow> error + 'i obstacleDistanceService" where
  "NewClientFromConn s conn remoteName name = Inl errUnimplemented"

definition Detections_of :: "'i obstacleDistanceService \<Rightarrow> 'i \<Rightarrow> 'x \<Rightarrow> error + unit list" where
  "Detections_of s img extra = Inl errUnimplemented"

definition DetectionsFromCamera :: "'i obstacleDistanceService \<Rightarrow> string \<Rightarrow> 'x \<Rightarrow> error + unit list" where
  "DetectionsFromCamera s cameraName extra = Inl errUnimplemented"

definition Classifications_of ::
  "'i obstacleDistanceService \<Rightarrow> 'i \<Rightarrow> int \<Rightarrow> 'x \<Rightarrow> error + unit list" where
  "Classifications_of s img n extra = Inl errUnimplemented"

definition ClassificationsFromCamera ::
  "'i obstacleDistanceService \<Rightarrow> string \<Rightarrow> int \<Rightarrow> 'x \<Rightarrow> error + unit list" where
  "ClassificationsFromCamera s cameraName n extra = Inl errUnimplemented"

definition DoCommand :: "'i obstacleDistanceService \<Rightarrow> 'cmd \<Rightarrow> error + 'cmd" where
  "DoCommand s cmd = Inl errUnimplemented"

record Properties =
  ClassificationSupported :: bool
  DetectionSupported :: bool
  ObjectPCDsSupported :: bool

definition GetProperties :: "'i obstacleDistanceService \<Rightarrow> 'x \<Rightarrow> error + Properties" where
  "GetProperties s extra =
     Inr \<lparr>ClassificationSupported = False, DetectionSupported = False, ObjectPCDsSupported = True\<rparr>"

subsection \<open>Two instances of the libraries\<close>

text \<open>
  Neither instance ever fails. \<open>oneGroup\<close> hands all the work to a single group,
  \<open>perItem\<close> gives every work item a group of its own. Both sort a long slice by
  insertion as well, which meets the contract of the sort; on points at pairwise different
  squared distances every sort that meets it leaves the same slice.
\<close>

definition oneGroup :: Library where
  "oneGroup = \<lparr>longSort = insertionSort Less, groupSizes = (\<lambda>n. []), groupWorkErr = None,
                setErr = (\<lambda>v. None)\<rparr>"

definition perItem :: Library where
  "perItem = \<lparr>longSort = insertionSort Less, groupSizes = (\<lambda>n. replicate n 1), groupWorkErr = None,
               setErr = (\<lambda>v. None)\<rparr>"

subsection \<open>Thirteen points\<close>

text \<open>
  The points \<open>(k, 0, 0)\<close> for \<open>k\<close> from 1 to 13, out of order: a slice longer than the
  twelve elements up to which the library sorts by insertion.
\<close>

definition thirteenPoints :: "Vector list" where
  "thirteenPoints =
     map (\<lambda>k. NewVector (Fin k) (Fin 0) (Fin 0)) [13, 1, 12, 2, 11, 3, 10, 4, 9, 5, 8, 6, 7]"

subsection \<open>A configuration and some cameras\<close>

text \<open>
  \<open>tenQueries\<close> asks for ten queries and names no default camera. The call number \<open>k\<close> of
  \<open>rampCamera\<close> returns the cloud of the single point \<open>(k + 1, 0, 0)\<close>; \<open>failingCamera\<close> fails
  on its third call; \<open>emptyCamera\<close> returns empty clouds only; every other cloud of
  \<open>sparseCamera\<close> is empty. \<open>noCameras\<close> are dependencies without any camera.
\<close>

definition tenQueries :: DistanceDetectorConfig where
  "tenQueries = \<lparr>NumQueries = 10, DefaultCamera = ''''\<rparr>"

definition rampCamera :: "unit Camera" where
  "rampCamera =
     \<lparr>NextPointCloud = (\<lambda>k. Inr [NewVector (Fin (real (Suc k))) (Fin 0) (Fin 0)]),
      DecodeImage = Inr ()\<rparr>"

definition failingCamera :: "unit Camera" where
  "failingCamera =
     \<lparr>NextPointCloud = (\<lambda>k. if k = 2 then Inl (Error ''camera disconnected'')
                             else Inr [NewVector (Fin 1) (Fin 0) (Fin 0)]),
      DecodeImage = Inr ()\<rparr>"

definition emptyCamera :: "unit Camera" where
  "emptyCamera = \<lparr>NextPointCloud = (\<lambda>k. Inr []), DecodeImage = Inr ()\<rparr>"

definition sparseCamera :: "unit Camera" where
  "sparseCamera =
     \<lparr>NextPointCloud = (\<lambda>k. if even k then Inr []
                             else Inr [NewVector (Fin (real k)) (Fin 0) (Fin 0)]),
      DecodeImage = Inr ()\<rparr>"

definition noCameras :: "string \<Rightarrow> error + unit Camera" where
  "noCameras cameraName = Inl (Error ''resource not found'')"

section \<open>Facts about the comparison\<close>

lemma f64_less_trans: "f64_less a b \<Longrightarrow> f64_less b c \<Longrightarrow> f64_less a c"
  by (cases a; cases b; cases c) auto

lemma f64_less_not_NaN: "f64_less a b \<Longrightarrow> a \<noteq> NaN \<and> b \<noteq> NaN"
  by (cases a; cases b) auto

lemma f64_less_irrefl: "\<not> f64_less a a"
  by (cases a) auto

lemma f64_less_linear: "a \<noteq> NaN \<Longrightarrow> b \<noteq> NaN \<Longrightarrow> f64_less a b \<or> a = b \<or> f64_less b a"
  by (cases a; cases b) auto

lemma f64_less_asym: "f64_less a b \<Longrightarrow> \<not> f64_less b a"
  by (cases a; cases b) auto

section \<open>Facts about the rounding\<close>

lemma roundEven_of_int: "roundEven (of_int z) = z"
  by (simp add: roundEven_def)

lemma roundEven_ge_floor: "\<lfloor>x\<rfloor> \<le> roundEven x"
  by (simp add: roundEven_def Let_def)

lemma roundEven_near:
  assumes "0 \<le> d" and "d < 1 / 2"
  shows "roundEven (of_int z + d) = z"
proof -
  have "\<lfloor>of_int z + d\<rfloor> = z"
    using assms by (intro floor_unique) simp_all
  then show ?thesis
    using assms by (simp add: roundEven_def)
qed

lemma powi_less_exp: "(2::real) powi a < 2 powi b \<Longrightarrow> a < b"
proof (rule ccontr)
  assume less: "(2::real) powi a < 2 powi b" and "\<not> a < b"
  then have "(2::real) powi b \<le> 2 powi a"
    by (intro power_int_increasing) simp_all
  with less show False by simp
qed

lemma binadeUp_in_binade:
  "e0 \<le> e \<Longrightarrow> 2 powi e \<le> x \<Longrightarrow> x < 2 powi (e + 1) \<Longrightarrow> e \<le> 1024 \<Longrightarrow> binadeUp x e0 = e"
proof (induction x e0 rule: binadeUp.induct)
  case (1 x e0)
  show ?case
  proof (cases "e0 < 1024 \<and> 2 powi (e0 + 1) \<le> x")
    case True
    then have "(2::real) powi (e0 + 1) < 2 powi (e + 1)"
      using "1.prems"(3) by simp
    then have "e0 + 1 \<le> e"
      using powi_less_exp [of "e0 + 1" "e + 1"] by simp
    from "1.IH" [OF True this "1.prems"(2,3,4)] True show ?thesis
      by (subst binadeUp.simps) simp
  next
    case False
    have "e0 = e"
    proof (cases "e0 < 1024")
      case True
      with False have "x < 2 powi (e0 + 1)" by simp
      with "1.prems"(2) have "(2::real) powi e < 2 powi (e0 + 1)" by simp
      then have "e < e0 + 1" by (rule powi_less_exp)
      with "1.prems"(1) show ?thesis by simp
    next
      case False
      with "1.prems"(1,4) show ?thesis by simp
    qed
    moreover have "binadeUp x e0 = e0"
      using False by (subst binadeUp.simps) auto
    ultimately show ?thesis by simp
  qed
qed

lemma binadeUp_beyond: "2 powi 1024 \<le> x \<Longrightarrow> e0 \<le> 1024 \<Longrightarrow> binadeUp x e0 = 1024"
proof (induction x e0 rule: binadeUp.induct)
  case (1 x e0)
  show ?case
  proof (cases "e0 < 1024")
    case True
    then have "(2::real) powi (e0 + 1) \<le> 2 powi 1024"
      by (intro power_int_increasing) simp_all
    with "1.prems"(1) have up: "e0 < 1024 \<and> 2 powi (e0 + 1) \<le> x"
      using True by simp
    then have "e0 + 1 \<le> 1024" by simp
    from "1.IH" [OF up "1.prems"(1) this] up show ?thesis
      by (subst binadeUp.simps) simp
  next
    case False
    with "1.prems"(2) show ?thesis
      by (subst binadeUp.simps) simp
  qed
qed

lemma binadeDown_in_binade:
  "e \<le> e0 \<Longrightarrow> 2 powi e \<le> x \<Longrightarrow> x < 2 powi (e + 1) \<Longrightarrow> - 1022 \<le> e \<Longrightarrow> binadeDown x e0 = e"
proof (induction x e0 rule: binadeDown.induct)
  case (1 x e0)
  show ?case
  proof (cases "- 1022 < e0 \<and> x < 2 powi e0")
    case True
    then have "(2::real) powi e < 2 powi e0"
      using "1.prems"(2) by simp
    then have "e \<le> e0 - 1"
      using powi_less_exp [of e e0] by simp
    from "1.IH" [OF True this "1.prems"(2,3,4)] True show ?thesis
      by (subst binadeDown.simps) simp
  next
    case False
    have "e0 = e"
    proof (cases "- 1022 < e0")
      case True
      with False have "2 powi e0 \<le> x" by simp
      with "1.prems"(3) have "(2::real) powi e0 < 2 powi (e + 1)" by simp
      then have "e0 < e + 1" by (rule powi_less_exp)
      with "1.prems"(1) show ?thesis by simp
    next
      case False
      with "1.prems"(1,4) show ?thesis by simp
    qed
    moreover have "binadeDown x e0 = e0"
      using False by (subst binadeDown.simps) auto
    ultimately show ?thesis by simp
  qed
qed

text \<open>The exponent of a number in the binade \<open>e\<close> is \<open>e\<close>.\<close>

lemma exponent_in_binade:
  assumes "2 powi e \<le> \<bar>r\<bar>" and "\<bar>r\<bar> < 2 powi (e + 1)" and "- 1022 \<le> e" and "e \<le> 1024"
  shows "exponent r = e"
proof (cases "1 \<le> \<bar>r\<bar>")
  case True
  with assms(2) have "(2::real) powi 0 < 2 powi (e + 1)" by simp
  then have "0 \<le> e"
    using powi_less_exp [of 0 "e + 1"] by simp
  then have "binadeUp \<bar>r\<bar> 0 = e"
    using assms(1,2,4) by (rule binadeUp_in_binade)
  with True show ?thesis by (simp add: exponent_def)
next
  case False
  with assms(1) have "(2::real) powi e < 2 powi 0" by simp
  then have "e \<le> 0"
    using powi_less_exp [of e 0] by simp
  then have "binadeDown \<bar>r\<bar> 0 = e"
    using assms(1,2,3) by (rule binadeDown_in_binade)
  with False show ?thesis by (simp add: exponent_def)
qed

lemma round64_in_binade:
  assumes "2 powi e \<le> \<bar>r\<bar>" and "\<bar>r\<bar> < 2 powi (e + 1)" and "- 1022 \<le> e" and "e \<le> 1024"
  shows "round64 r =
     (if 2 ^ 1024 \<le> \<bar>2 powi (e - 52) * real_of_int (roundEven (r / 2 powi (e - 52)))\<bar>
      then (if 0 < r then PosInf else NegInf)
      else Fin (2 powi (e - 52) * of_int (roundEven (r / 2 powi (e - 52)))))"
  using exponent_in_binade [OF assms] by (simp add: round64_def Let_def)

text \<open>A number that is a float64 is the result of rounding it.\<close>

lemma round64_exact:
  assumes "2 powi e \<le> \<bar>r\<bar>" and "\<bar>r\<bar> < 2 powi (e + 1)" and "- 1022 \<le> e" and "e < 1024"
    and "r / 2 powi (e - 52) = of_int m"
  shows "round64 r = Fin r"
proof -
  have "2 powi (e - 52) * of_int (roundEven (r / 2 powi (e - 52))) = r"
    unfolding assms(5) roundEven_of_int
    using assms(5) by (simp add: field_simps)
  moreover have "(2::real) powi (e + 1) \<le> 2 powi 1024"
    using assms(4) by (intro power_int_increasing) simp_all
  then have "\<bar>r\<bar> < 2 ^ 1024"
    using assms(2) by simp
  moreover have "e \<le> 1024" using assms(4) by simp
  ultimately show ?thesis
    using round64_in_binade [OF assms(1,2,3)] by simp
qed

lemma round64_0: "round64 0 = Fin 0"
  by (simp add: round64_def roundEven_def)

lemma powr_powi: "(2::real) powr of_int e = 2 powi e"
  by (simp add: powr_real_of_int')

lemma binade_exists:
  assumes "0 < x"
  shows "2 powi \<lfloor>log 2 x\<rfloor> \<le> x \<and> x < 2 powi (\<lfloor>log 2 x\<rfloor> + 1)"
  using floor_log_eq_powr_iff [of x 2 "\<lfloor>log 2 x\<rfloor>"] assms
  by (simp flip: powr_powi)

text \<open>The integers below \<open>2\<^sup>5\<^sup>3\<close> are float64 numbers.\<close>

lemma round64_of_int:
  assumes "\<bar>n\<bar> < 2 ^ 53"
  shows "round64 (of_int n) = Fin (of_int n)"
proof (cases "n = 0")
  case True
  then show ?thesis by (simp add: round64_0)
next
  case False
  define e where "e = \<lfloor>log 2 \<bar>real_of_int n\<bar>\<rfloor>"
  have pos: "0 < \<bar>real_of_int n\<bar>" using False by simp
  from binade_exists [OF pos]
  have lo: "2 powi e \<le> \<bar>real_of_int n\<bar>" and hi: "\<bar>real_of_int n\<bar> < 2 powi (e + 1)"
    by (simp_all add: e_def)
  have one: "1 \<le> \<bar>real_of_int n\<bar>"
  proof -
    have "1 \<le> \<bar>n\<bar>" using False by simp
    then have "real_of_int 1 \<le> real_of_int \<bar>n\<bar>" by (simp only: of_int_le_iff)
    then show ?thesis by simp
  qed
  have "(2::real) powi 0 < 2 powi (e + 1)"
    using one hi by simp
  then have "0 \<le> e"
    using powi_less_exp [of 0 "e + 1"] by simp
  have "real_of_int \<bar>n\<bar> < real_of_int (2 ^ 53)"
    using assms by (simp only: of_int_less_iff)
  then have "(2::real) powi e < 2 powi 53"
    using lo by simp
  then have "e \<le> 52"
    using powi_less_exp [of e 53] by simp
  have ratio: "real_of_int n / 2 powi (e - 52) = of_int (n * 2 ^ nat (52 - e))"
    using \<open>e \<le> 52\<close> by (simp add: power_int_def field_simps)
  have "- 1022 \<le> e" and "e < 1024"
    using \<open>0 \<le> e\<close> \<open>e \<le> 52\<close> by simp_all
  then show ?thesis
    by (rule round64_exact [OF lo hi _ _ ratio])
qed

lemma round64_1: "round64 1 = Fin 1"
  using round64_of_int [of 1] by simp

lemma round64_numeral: "numeral k < (2::int) ^ 53 \<Longrightarrow> round64 (numeral k) = Fin (numeral k)"
  using round64_of_int [of "numeral k"] by simp

lemmas round64_small = round64_0 round64_1 round64_numeral

text \<open>From \<open>2\<^sup>1\<^sup>0\<^sup>2\<^sup>4\<close> on a number rounds to \<open>+Inf\<close>.\<close>

lemma round64_overflow:
  assumes "2 ^ 1024 \<le> r"
  shows "round64 r = PosInf"
proof -
  have "(1::real) \<le> 2 ^ 1024" by simp
  with assms have one: "1 \<le> r" by linarith
  then have pos: "0 < r" by simp
  then have abs: "\<bar>r\<bar> = r" by simp
  have "binadeUp r 0 = 1024"
    using assms by (intro binadeUp_beyond) simp_all
  with one have e: "exponent r = 1024"
    by (simp add: exponent_def abs)
  have q: "(0::real) < 2 powi 972" by simp
  have split: "2 powi 972 * (2::real) ^ 52 = 2 ^ 1024"
    by (simp add: power_int_def flip: power_add)
  have "(2::real) ^ 52 \<le> r / 2 powi 972"
    using assms q split by (simp add: field_simps)
  then have "2 ^ 52 \<le> \<lfloor>r / 2 powi 972\<rfloor>"
    by (simp add: le_floor_iff)
  then have "2 ^ 52 \<le> roundEven (r / 2 powi 972)"
    using roundEven_ge_floor [of "r / 2 powi 972"] by linarith
  then have "(2::real) ^ 52 \<le> of_int (roundEven (r / 2 powi 972))"
    by (metis of_int_le_iff of_int_numeral of_int_power)
  then have "2 powi 972 * (2::real) ^ 52 \<le> 2 powi 972 * real_of_int (roundEven (r / 2 powi 972))"
    using q by (simp only: mult_le_cancel_left_pos)
  then have "(2::real) ^ 1024 \<le> 2 powi 972 * real_of_int (roundEven (r / 2 powi 972))"
    by (simp only: split)
  then have "(2::real) ^ 1024 \<le> \<bar>2 powi 972 * real_of_int (roundEven (r / 2 powi 972))\<bar>"
    by linarith
  then show ?thesis
    using pos by (simp add: round64_def e Let_def)
qed

text \<open>
  The number \<open>2\<^sup>-\<^sup>6\<^sup>0\<close> is a float64, and \<open>1 + 2\<^sup>-\<^sup>6\<^sup>0\<close> is not: the float64 nearest to it is 1.
\<close>

lemma round64_tiny: "round64 (1 / 2 ^ 60) = Fin (1 / 2 ^ 60)"
proof (rule round64_exact [where e = "- 60" and m = "2 ^ 52"])
  show "2 powi - 60 \<le> \<bar>1 / 2 ^ 60 :: real\<bar>"
    by (simp add: power_int_minus field_simps)
  show "\<bar>1 / 2 ^ 60 :: real\<bar> < 2 powi (- 60 + 1)"
    by (simp add: power_int_minus field_simps)
  show "(1 / 2 ^ 60 :: real) / 2 powi (- 60 - 52) = of_int (2 ^ 52)"
    by (simp add: power_int_minus field_simps)
qed simp_all

lemma round64_one_tiny: "round64 (1 + 1 / 2 ^ 60) = Fin 1"
proof -
  have "roundEven (of_int (2 ^ 52) + 1 / 2 ^ 8) = 2 ^ 52"
    by (rule roundEven_near) simp_all
  moreover have "(1 + 1 / 2 ^ 60) / 2 powi (0 - 52) = real_of_int (2 ^ 52) + 1 / 2 ^ 8"
    by (simp add: power_int_minus field_simps)
  ultimately have "roundEven ((1 + 1 / 2 ^ 60) / 2 powi (0 - 52)) = 2 ^ 52"
    by (simp only:)
  moreover have "2 powi (0 - 52) * real_of_int (2 ^ 52) = 1"
    by (simp add: power_int_minus)
  ultimately have "2 powi (0 - 52) * real_of_int (roundEven ((1 + 1 / 2 ^ 60) / 2 powi (0 - 52))) = 1"
    by (simp only:)
  moreover have "2 powi 0 \<le> \<bar>1 + 1 / 2 ^ 60 :: real\<bar>" "\<bar>1 + 1 / 2 ^ 60 :: real\<bar> < 2 powi (0 + 1)"
    by simp_all
  ultimately show ?thesis
    using round64_in_binade [of 0 "1 + 1 / 2 ^ 60"] by (simp only:) simp
qed

section \<open>The closest point of a cloud: proofs\<close>

lemma small_less_MaxFinite: "r \<le> 1000 \<Longrightarrow> r < MaxFinite"
proof -
  have "(1000::real) < MaxFinite"
    by (simp add: MaxFinite_def)
  then show "r \<le> 1000 \<Longrightarrow> r < MaxFinite"
    by simp
qed

lemma Norm2_NewVector_Fin:
  "Norm2 (NewVector (Fin x) (Fin y) (Fin z)) =
     f64_add (f64_add (round64 (x * x)) (round64 (y * y))) (round64 (z * z))"
  by (simp add: Norm2_def NewVector_def)

lemma Norm2_zeroVector: "Norm2 zeroVector = Fin 0"
  by (simp add: Norm2_def zeroVector_def round64_0)

text \<open>
  The points \<open>(1, 2\<^sup>-\<^sup>3\<^sup>0, 0)\<close> and \<open>(1, 0, 0)\<close> are at the same squared distance: the sum
  \<open>1 + 2\<^sup>-\<^sup>6\<^sup>0\<close> is rounded to 1.
\<close>

lemma Norm2_rounding_tie:
  assumes "y = 1 / 2 ^ 30"
  shows "Norm2 (NewVector (Fin 1) (Fin y) (Fin 0)) = Fin 1"
proof -
  have "y * y = 1 / 2 ^ 60"
    unfolding assms by simp
  then have "Norm2 (NewVector (Fin 1) (Fin y) (Fin 0))
      = f64_add (f64_add (round64 1) (round64 (1 / 2 ^ 60))) (round64 0)"
    unfolding Norm2_NewVector_Fin by (simp only: mult_1 mult_zero_left)
  also have "\<dots> = f64_add (round64 (1 + 1 / 2 ^ 60)) (Fin 0)"
    by (simp only: round64_1 round64_tiny round64_0 f64_add.simps)
  also have "\<dots> = Fin 1"
    by (simp only: round64_one_tiny f64_add.simps add_0_right round64_1)
  finally show ?thesis .
qed

lemma Norm2_axis:
  "Norm2 (NewVector (Fin 3) (Fin 0) (Fin 0)) = Fin 9"
  "Norm2 (NewVector (Fin 1) (Fin 0) (Fin 0)) = Fin 1"
  "Norm2 (NewVector (Fin 0) (Fin 1) (Fin 0)) = Fin 1"
  "Norm2 (NewVector (Fin 0) (Fin 2) (Fin 0)) = Fin 4"
  "Norm2 (NewVector (Fin 0) (Fin 0) (Fin 4)) = Fin 16"
  "Norm2 (NewVector (Fin 5) (Fin 0) (Fin 0)) = Fin 25"
  "Norm2 (NewVector (Fin 1) (Fin 2) (Fin 2)) = Fin 9"
  by (simp_all add: Norm2_NewVector_Fin round64_small)

lemma closestStep_pair:
  "closestStep pt (m, mp) = (True, if f64_less (Norm2 pt) m then (Norm2 pt, pt) else (m, mp))"
  by (simp add: closestStep_def Let_def)

lemma Iterate_closest_keep:
  "\<forall>q\<in>set cloud. \<not> f64_less (Norm2 q) m \<Longrightarrow> Iterate cloud closestStep (m, mp) = (m, mp)"
  by (induction cloud) (simp_all add: closestStep_pair)

lemma Iterate_closest_cases:
  "Iterate cloud closestStep (m, mp) = (m', mp') \<Longrightarrow>
     (m' = m \<and> mp' = mp \<and> (\<forall>q\<in>set cloud. \<not> f64_less (Norm2 q) m)) \<or>
     (mp' \<in> set cloud \<and> m' = Norm2 mp' \<and> f64_less m' m \<and> (\<forall>q\<in>set cloud. \<not> f64_less (Norm2 q) m'))"
proof (induction cloud arbitrary: m mp)
  case Nil
  then show ?case by simp
next
  case (Cons pt rest)
  show ?case
  proof (cases "f64_less (Norm2 pt) m")
    case True
    with Cons.prems have run: "Iterate rest closestStep (Norm2 pt, pt) = (m', mp')"
      by (simp add: closestStep_pair)
    from Cons.IH [OF run] show ?thesis
    proof
      assume "m' = Norm2 pt \<and> mp' = pt \<and> (\<forall>q\<in>set rest. \<not> f64_less (Norm2 q) (Norm2 pt))"
      with True show ?thesis by (auto simp: f64_less_irrefl)
    next
      assume later: "mp' \<in> set rest \<and> m' = Norm2 mp' \<and> f64_less m' (Norm2 pt) \<and>
        (\<forall>q\<in>set rest. \<not> f64_less (Norm2 q) m')"
      then have "f64_less m' m" using True f64_less_trans by blast
      moreover have "\<not> f64_less (Norm2 pt) m'" using later f64_less_asym by blast
      ultimately show ?thesis using later by auto
    qed
  next
    case False
    with Cons.prems have run: "Iterate rest closestStep (m, mp) = (m', mp')"
      by (simp add: closestStep_pair)
    from Cons.IH [OF run] show ?thesis
    proof
      assume "m' = m \<and> mp' = mp \<and> (\<forall>q\<in>set rest. \<not> f64_less (Norm2 q) m)"
      with False show ?thesis by auto
    next
      assume later: "mp' \<in> set rest \<and> m' = Norm2 mp' \<and> f64_less m' m \<and>
        (\<forall>q\<in>set rest. \<not> f64_less (Norm2 q) m')"
      have "\<not> f64_less (Norm2 pt) m'"
      proof
        assume "f64_less (Norm2 pt) m'"
        then have "f64_less (Norm2 pt) m" using later f64_less_trans by blast
        with False show False by simp
      qed
      then show ?thesis using later by auto
    qed
  qed
qed

lemma Iterate_closest_first:
  "\<forall>q\<in>set pre. Norm2 q \<noteq> Norm2 p \<Longrightarrow>
   \<forall>q\<in>set (pre @ p # post). \<not> f64_less (Norm2 q) (Norm2 p) \<Longrightarrow>
   f64_less (Norm2 p) m \<Longrightarrow>
   Iterate (pre @ p # post) closestStep (m, mp) = (Norm2 p, p)"
proof (induction pre arbitrary: m mp)
  case Nil
  then have "Iterate post closestStep (Norm2 p, p) = (Norm2 p, p)"
    by (intro Iterate_closest_keep) simp
  with Nil show ?case by (simp add: closestStep_pair)
next
  case (Cons q pre)
  show ?case
  proof (cases "f64_less (Norm2 q) m")
    case True
    have "Norm2 q \<noteq> NaN" "Norm2 p \<noteq> NaN"
      using True Cons.prems(3) f64_less_not_NaN by blast+
    moreover have "Norm2 q \<noteq> Norm2 p" "\<not> f64_less (Norm2 q) (Norm2 p)"
      using Cons.prems by simp_all
    ultimately have "f64_less (Norm2 p) (Norm2 q)"
      using f64_less_linear by blast
    then have "Iterate (pre @ p # post) closestStep (Norm2 q, q) = (Norm2 p, p)"
      using Cons.prems by (intro Cons.IH) simp_all
    with True show ?thesis by (simp add: closestStep_pair)
  next
    case False
    have "Iterate (pre @ p # post) closestStep (m, mp) = (Norm2 p, p)"
      using Cons.prems by (intro Cons.IH) simp_all
    with False show ?thesis by (simp add: closestStep_pair)
  qed
qed

lemma visited_closestStep: "visited cloud closestStep s = cloud"
proof (induction cloud arbitrary: s)
  case Nil
  show ?case by simp
next
  case (Cons pt rest)
  obtain m mp where s: "s = (m, mp)" by (cases s)
  show ?case using Cons.IH unfolding s by (simp add: closestStep_pair)
qed

lemma getClosestPoint_cases:
  "(getClosestPoint cloud = zeroVector \<and> (\<forall>q\<in>set cloud. \<not> f64_less (Norm2 q) MaxFloat64)) \<or>
   (getClosestPoint cloud \<in> set cloud \<and> f64_less (Norm2 (getClosestPoint cloud)) MaxFloat64 \<and>
    (\<forall>q\<in>set cloud. \<not> f64_less (Norm2 q) (Norm2 (getClosestPoint cloud))))"
proof -
  obtain m' mp' where run: "Iterate cloud closestStep (MaxFloat64, zeroVector) = (m', mp')"
    by (cases "Iterate cloud closestStep (MaxFloat64, zeroVector)")
  then have res: "getClosestPoint cloud = mp'" by (simp add: getClosestPoint_def)
  from Iterate_closest_cases [OF run] show ?thesis unfolding res by auto
qed

text \<open>
  Claim C1, as amended. The search starts from \<^verbatim>\<open>math.MaxFloat64\<close> and replaces the
  current point only on a strictly smaller squared distance. Whenever the cloud has a
  point whose squared distance is below \<^verbatim>\<open>math.MaxFloat64\<close>, \<open>getClosestPoint\<close> returns a
  point of the cloud, no point of the cloud is strictly closer to the origin, and the
  squared distance of the result is less than or equal to that of every point of the
  cloud whose squared distance is a number.
\<close>

theorem getClosestPoint_member_minimal:
  assumes "\<exists>p\<in>set cloud. f64_less (Norm2 p) MaxFloat64"
  shows "getClosestPoint cloud \<in> set cloud \<and>
         (\<forall>q\<in>set cloud. \<not> f64_less (Norm2 q) (Norm2 (getClosestPoint cloud))) \<and>
         (\<forall>q\<in>set cloud. Norm2 q \<noteq> NaN \<longrightarrow> f64_le (Norm2 (getClosestPoint cloud)) (Norm2 q))"
proof -
  from getClosestPoint_cases [of cloud] assms
  have mem: "getClosestPoint cloud \<in> set cloud"
    and below: "f64_less (Norm2 (getClosestPoint cloud)) MaxFloat64"
    and least: "\<forall>q\<in>set cloud. \<not> f64_less (Norm2 q) (Norm2 (getClosestPoint cloud))"
    by auto
  have "Norm2 (getClosestPoint cloud) \<noteq> NaN" using below f64_less_not_NaN by blast
  then have "\<forall>q\<in>set cloud. Norm2 q \<noteq> NaN \<longrightarrow> f64_le (Norm2 (getClosestPoint cloud)) (Norm2 q)"
    using least f64_less_linear unfolding f64_le_def by blast
  with mem least show ?thesis by blast
qed

theorem getClosestPoint_member_minimal_witness:
  "(\<exists>p\<in>set [NewVector (Fin 3) (Fin 0) (Fin 0), NewVector (Fin 1) (Fin 2) (Fin 2),
               NewVector (Fin 0) (Fin 2) (Fin 0)]. f64_less (Norm2 p) MaxFloat64) \<and>
   getClosestPoint [NewVector (Fin 3) (Fin 0) (Fin 0), NewVector (Fin 1) (Fin 2) (Fin 2),
                    NewVector (Fin 0) (Fin 2) (Fin 0)] = NewVector (Fin 0) (Fin 2) (Fin 0) \<and>
   getClosestPoint [NewVector (Fin 3) (Fin 0) (Fin 0), NewVector (Fin 1) (Fin 2) (Fin 2),
                    NewVector (Fin 0) (Fin 2) (Fin 0)]
     \<in> set [NewVector (Fin 3) (Fin 0) (Fin 0), NewVector (Fin 1) (Fin 2) (Fin 2),
             NewVector (Fin 0) (Fin 2) (Fin 0)] \<and>
   (\<exists>p\<in>set [NewVector (Fin 1) (Fin (1 / 2 ^ 30)) (Fin 0), NewVector (Fin 1) (Fin 0) (Fin 0)].
      f64_less (Norm2 p) MaxFloat64) \<and>
   getClosestPoint [NewVector (Fin 1) (Fin (1 / 2 ^ 30)) (Fin 0), NewVector (Fin 1) (Fin 0) (Fin 0)]
     = NewVector (Fin 1) (Fin (1 / 2 ^ 30)) (Fin 0) \<and>
   f64_le (Norm2 (getClosestPoint [NewVector (Fin 1) (Fin (1 / 2 ^ 30)) (Fin 0),
                                   NewVector (Fin 1) (Fin 0) (Fin 0)]))
          (Norm2 (NewVector (Fin 1) (Fin 0) (Fin 0)))"
proof -
  let ?cloud = "[NewVector (Fin 3) (Fin 0) (Fin 0), NewVector (Fin 1) (Fin 2) (Fin 2),
                 NewVector (Fin 0) (Fin 2) (Fin 0)]"
  let ?b = "NewVector (Fin 1) (Fin 0) (Fin 0)"
  let ?tie = "[NewVector (Fin 1) (Fin (1 / 2 ^ 30)) (Fin 0), ?b]"
  have near: "\<exists>p\<in>set ?cloud. f64_less (Norm2 p) MaxFloat64"
    by (simp add: Norm2_axis MaxFloat64_def small_less_MaxFinite)
  have res: "getClosestPoint ?cloud = NewVector (Fin 0) (Fin 2) (Fin 0)"
    by (simp add: getClosestPoint_def closestStep_pair Norm2_axis MaxFloat64_def small_less_MaxFinite)
  have near': "\<exists>p\<in>set ?tie. f64_less (Norm2 p) MaxFloat64"
    by (simp add: Norm2_axis MaxFloat64_def small_less_MaxFinite)
  have res': "getClosestPoint ?tie = NewVector (Fin 1) (Fin (1 / 2 ^ 30)) (Fin 0)"
    by (simp add: getClosestPoint_def closestStep_pair Norm2_axis Norm2_rounding_tie MaxFloat64_def
        small_less_MaxFinite)
  have "?b \<in> set ?tie" "Norm2 ?b \<noteq> NaN"
    by (simp_all add: Norm2_axis)
  with getClosestPoint_member_minimal [OF near']
  have le: "f64_le (Norm2 (getClosestPoint ?tie)) (Norm2 ?b)"
    by blast
  from getClosestPoint_member_minimal [OF near] near res near' res' le show ?thesis
    by blast
qed

text \<open>
  Claim C1 as stated fails. The cloud of the single point \<open>(2\<^sup>6\<^sup>0\<^sup>0, 0, 0)\<close> is not empty, the
  squared distance of its point overflows to \<open>+Inf\<close>, which is not below
  \<^verbatim>\<open>math.MaxFloat64\<close>, and the result is the zero vector, which is not in the cloud. And in
  the cloud of \<open>(1, 0, 0)\<close> and \<open>(NaN, 0, 0)\<close> the result \<open>(1, 0, 0)\<close> is not at a squared
  distance less than or equal to that of the other point, which is NaN.
\<close>

theorem getClosestPoint_member_counterexample:
  "[NewVector (Fin (2 ^ 600)) (Fin 0) (Fin 0)] \<noteq> [] \<and>
   Norm2 (NewVector (Fin (2 ^ 600)) (Fin 0) (Fin 0)) = PosInf \<and>
   getClosestPoint [NewVector (Fin (2 ^ 600)) (Fin 0) (Fin 0)] = NewVector (Fin 0) (Fin 0) (Fin 0) \<and>
   getClosestPoint [NewVector (Fin (2 ^ 600)) (Fin 0) (Fin 0)]
     \<notin> set [NewVector (Fin (2 ^ 600)) (Fin 0) (Fin 0)] \<and>
   getClosestPoint [NewVector (Fin 1) (Fin 0) (Fin 0), NewVector NaN (Fin 0) (Fin 0)]
     = NewVector (Fin 1) (Fin 0) (Fin 0) \<and>
   \<not> f64_le (Norm2 (NewVector (Fin 1) (Fin 0) (Fin 0))) (Norm2 (NewVector NaN (Fin 0) (Fin 0)))"
proof -
  have far: "Norm2 (NewVector (Fin (2 ^ 600)) (Fin 0) (Fin 0)) = PosInf"
    by (simp add: Norm2_NewVector_Fin round64_overflow round64_0)
  have "getClosestPoint [p] = zeroVector" if "Norm2 p = PosInf" for p
    using that by (simp add: getClosestPoint_def closestStep_pair MaxFloat64_def)
  from this [OF far]
  have res: "getClosestPoint [NewVector (Fin (2 ^ 600)) (Fin 0) (Fin 0)] = zeroVector" .
  have zero: "zeroVector \<noteq> NewVector (Fin (2 ^ 600)) (Fin 0) (Fin 0)"
    "zeroVector = NewVector (Fin 0) (Fin 0) (Fin 0)"
    by (simp_all add: zeroVector_def NewVector_def)
  have norms: "Norm2 (NewVector (Fin 1) (Fin 0) (Fin 0)) = Fin 1"
    "Norm2 (NewVector NaN (Fin 0) (Fin 0)) = NaN"
    by (simp_all add: Norm2_axis) (simp add: Norm2_def NewVector_def)
  have nan: "getClosestPoint [NewVector (Fin 1) (Fin 0) (Fin 0), NewVector NaN (Fin 0) (Fin 0)]
      = NewVector (Fin 1) (Fin 0) (Fin 0)"
    by (simp add: getClosestPoint_def closestStep_pair norms MaxFloat64_def small_less_MaxFinite)
  have "\<not> f64_le (Fin 1) NaN"
    by (simp add: f64_le_def)
  with far res zero nan show ?thesis
    by (simp only: norms list.set insert_iff empty_iff simp_thms list.distinct)
qed

text \<open>
  Claim C6. On the empty cloud the callback is never called and \<open>getClosestPoint\<close> returns
  the origin \<open>(0, 0, 0)\<close>, whose squared distance is zero. As a function it has a value on
  every cloud: it has no failure mode.
\<close>

theorem getClosestPoint_empty:
  "getClosestPoint [] = NewVector (Fin 0) (Fin 0) (Fin 0) \<and>
   Norm2 (getClosestPoint []) = Fin 0 \<and>
   visited [] closestStep (MaxFloat64, zeroVector) = []"
proof -
  have "Iterate [] closestStep (MaxFloat64, zeroVector) = (MaxFloat64, zeroVector)"
    by simp
  then have "getClosestPoint [] = zeroVector"
    by (simp add: getClosestPoint_def)
  moreover have "zeroVector = NewVector (Fin 0) (Fin 0) (Fin 0)"
    by (simp add: zeroVector_def NewVector_def)
  moreover have "Norm2 zeroVector = Fin 0"
    by (rule Norm2_zeroVector)
  ultimately show ?thesis by simp
qed

text \<open>
  Claim C7, as amended. When \<open>p\<close> is a point of the cloud at the minimum squared distance
  and that distance is below \<^verbatim>\<open>math.MaxFloat64\<close>, \<open>getClosestPoint\<close> returns the first
  point of the traversal that has this squared distance; the callback is called on every
  point of the cloud exactly once, in the order of the traversal. The squared distances are
  the float64 values \<^verbatim>\<open>Norm2\<close> returns: the points \<open>(1, 2\<^sup>-\<^sup>3\<^sup>0, 0)\<close> and \<open>(1, 0, 0)\<close> are at the
  same one.
\<close>

theorem getClosestPoint_first_of_ties:
  assumes "p \<in> set cloud" and "f64_less (Norm2 p) MaxFloat64"
    and "\<forall>q\<in>set cloud. \<not> f64_less (Norm2 q) (Norm2 p)"
  shows "find (\<lambda>q. Norm2 q = Norm2 p) cloud = Some (getClosestPoint cloud) \<and>
         visited cloud closestStep (MaxFloat64, zeroVector) = cloud"
proof -
  from assms(1) obtain first where f: "find (\<lambda>q. Norm2 q = Norm2 p) cloud = Some first"
    by (cases "find (\<lambda>q. Norm2 q = Norm2 p) cloud") (auto simp: find_None_iff)
  then obtain i where i: "i < length cloud" "Norm2 (cloud ! i) = Norm2 p" "first = cloud ! i"
    "\<forall>j<i. Norm2 (cloud ! j) \<noteq> Norm2 p"
    unfolding find_Some_iff by blast
  define pre post where "pre = take i cloud" and "post = drop (Suc i) cloud"
  have same: "Norm2 first = Norm2 p"
    using i(2,3) by simp
  have parts: "pre @ first # post = cloud"
    using i(1) unfolding i(3) pre_def post_def by (rule id_take_nth_drop [symmetric])
  have "\<forall>q\<in>set pre. Norm2 q \<noteq> Norm2 first"
    using i(1,4) unfolding same by (auto simp: pre_def in_set_conv_nth)
  moreover have "\<forall>q\<in>set (pre @ first # post). \<not> f64_less (Norm2 q) (Norm2 first)"
    using assms(3) unfolding same parts by simp
  moreover have "f64_less (Norm2 first) MaxFloat64"
    using assms(2) unfolding same by simp
  ultimately have "Iterate (pre @ first # post) closestStep (MaxFloat64, zeroVector) = (Norm2 first, first)"
    by (rule Iterate_closest_first)
  then have "getClosestPoint (pre @ first # post) = first"
    by (simp add: getClosestPoint_def)
  then have "getClosestPoint cloud = first"
    by (simp only: parts)
  with f show ?thesis by (simp add: visited_closestStep)
qed

theorem getClosestPoint_first_of_ties_witness:
  "NewVector (Fin 1) (Fin 0) (Fin 0)
     \<in> set [NewVector (Fin 3) (Fin 0) (Fin 0), NewVector (Fin 1) (Fin (1 / 2 ^ 30)) (Fin 0),
             NewVector (Fin 1) (Fin 0) (Fin 0)] \<and>
   Norm2 (NewVector (Fin 1) (Fin (1 / 2 ^ 30)) (Fin 0)) = Norm2 (NewVector (Fin 1) (Fin 0) (Fin 0)) \<and>
   NewVector (Fin 1) (Fin (1 / 2 ^ 30)) (Fin 0) \<noteq> NewVector (Fin 1) (Fin 0) (Fin 0) \<and>
   f64_less (Norm2 (NewVector (Fin 1) (Fin 0) (Fin 0))) MaxFloat64 \<and>
   getClosestPoint [NewVector (Fin 3) (Fin 0) (Fin 0), NewVector (Fin 1) (Fin (1 / 2 ^ 30)) (Fin 0),
                    NewVector (Fin 1) (Fin 0) (Fin 0)] = NewVector (Fin 1) (Fin (1 / 2 ^ 30)) (Fin 0) \<and>
   visited [NewVector (Fin 3) (Fin 0) (Fin 0), NewVector (Fin 1) (Fin (1 / 2 ^ 30)) (Fin 0),
            NewVector (Fin 1) (Fin 0) (Fin 0)] closestStep (MaxFloat64, zeroVector)
     = [NewVector (Fin 3) (Fin 0) (Fin 0), NewVector (Fin 1) (Fin (1 / 2 ^ 30)) (Fin 0),
        NewVector (Fin 1) (Fin 0) (Fin 0)]"
proof -
  let ?a = "NewVector (Fin 1) (Fin (1 / 2 ^ 30)) (Fin 0)"
  let ?p = "NewVector (Fin 1) (Fin 0) (Fin 0)"
  let ?cloud = "[NewVector (Fin 3) (Fin 0) (Fin 0), ?a, ?p]"
  have same: "Norm2 ?a = Norm2 ?p"
    by (simp add: Norm2_axis Norm2_rounding_tie)
  have differ: "?a \<noteq> ?p"
    by (simp add: NewVector_def)
  have mem: "?p \<in> set ?cloud" by simp
  have below: "f64_less (Norm2 ?p) MaxFloat64"
    by (simp add: Norm2_axis MaxFloat64_def small_less_MaxFinite)
  have least: "\<forall>q\<in>set ?cloud. \<not> f64_less (Norm2 q) (Norm2 ?p)"
    by (simp add: Norm2_axis Norm2_rounding_tie)
  have "find (\<lambda>q. Norm2 q = Norm2 ?p) ?cloud = Some ?a"
    by (simp add: Norm2_axis Norm2_rounding_tie)
  with getClosestPoint_first_of_ties [OF mem below least]
  have "getClosestPoint ?cloud = ?a" "visited ?cloud closestStep (MaxFloat64, zeroVector) = ?cloud"
    by simp_all
  with mem same differ below show ?thesis
    by blast
qed

text \<open>
  Claim C7 as stated fails: the points \<open>(2\<^sup>6\<^sup>0\<^sup>0, 0, 0)\<close> and \<open>(0, 2\<^sup>6\<^sup>0\<^sup>0, 0)\<close> have the same
  squared distance, the minimum of their cloud, and the result is neither of them.
\<close>

theorem getClosestPoint_first_of_ties_counterexample:
  "Norm2 (NewVector (Fin (2 ^ 600)) (Fin 0) (Fin 0)) = Norm2 (NewVector (Fin 0) (Fin (2 ^ 600)) (Fin 0)) \<and>
   getClosestPoint [NewVector (Fin (2 ^ 600)) (Fin 0) (Fin 0), NewVector (Fin 0) (Fin (2 ^ 600)) (Fin 0)]
     \<noteq> NewVector (Fin (2 ^ 600)) (Fin 0) (Fin 0) \<and>
   getClosestPoint [NewVector (Fin (2 ^ 600)) (Fin 0) (Fin 0), NewVector (Fin 0) (Fin (2 ^ 600)) (Fin 0)]
     \<noteq> NewVector (Fin 0) (Fin (2 ^ 600)) (Fin 0)"
proof -
  have far: "Norm2 (NewVector (Fin (2 ^ 600)) (Fin 0) (Fin 0)) = PosInf"
    "Norm2 (NewVector (Fin 0) (Fin (2 ^ 600)) (Fin 0)) = PosInf"
    by (simp_all add: Norm2_NewVector_Fin round64_overflow round64_0)
  have "getClosestPoint [p, q] = zeroVector" if "Norm2 p = PosInf" "Norm2 q = PosInf" for p q
    using that by (simp add: getClosestPoint_def closestStep_pair MaxFloat64_def)
  from this [OF far]
  have res: "getClosestPoint [NewVector (Fin (2 ^ 600)) (Fin 0) (Fin 0),
      NewVector (Fin 0) (Fin (2 ^ 600)) (Fin 0)] = zeroVector" .
  have "zeroVector \<noteq> NewVector (Fin (2 ^ 600)) (Fin 0) (Fin 0)"
    "zeroVector \<noteq> NewVector (Fin 0) (Fin (2 ^ 600)) (Fin 0)"
    by (simp_all add: zeroVector_def NewVector_def)
  with far res show ?thesis by (simp only: list.set insert_iff empty_iff simp_thms list.distinct)
qed

section \<open>Sorting and the median: proofs\<close>

lemma f64_less_cotrans: "b \<noteq> NaN \<Longrightarrow> f64_less a c \<Longrightarrow> f64_less a b \<or> f64_less b c"
  by (cases a; cases b; cases c) auto

lemma not_less_f64_le: "a \<noteq> NaN \<Longrightarrow> b \<noteq> NaN \<Longrightarrow> \<not> f64_less b a \<Longrightarrow> f64_le a b"
  using f64_less_linear [of a b] by (auto simp: f64_le_def)

lemma ascending_unique:
  fixes ds ds' :: "float64 list"
  assumes "sorted_wrt f64_le ds" and "sorted_wrt f64_le ds'" and "mset ds = mset ds'"
  shows "ds = ds'"
proof -
  define rank :: "float64 \<Rightarrow> nat \<times> real" where
    "rank = (\<lambda>a. case a of NegInf \<Rightarrow> (0, 0) | Fin r \<Rightarrow> (1, r) | PosInf \<Rightarrow> (2, 0) | NaN \<Rightarrow> (3, 0))"
  have mono: "rank a \<le> rank b" if "f64_le a b" for a b
    using that by (cases a; cases b) (auto simp: rank_def f64_le_def)
  have inj: "inj rank"
    by (rule injI) (auto simp: rank_def split: float64.splits)
  have "sorted (map rank ds)" "sorted (map rank ds')"
    using assms(1,2) mono by (auto simp: sorted_map intro: sorted_wrt_mono_rel)
  moreover have "mset (map rank ds) = mset (map rank ds')"
    using assms(3) by simp
  ultimately have "map rank ds = map rank ds'"
    by (metis properties_for_sort)
  with inj show ?thesis by simp
qed

lemma mset_sink: "mset (sink lt x front) = add_mset x (mset front)"
  by (induction front) auto

lemma set_sink: "set (sink lt x front) = insert x (set front)"
  by (induction front) auto

lemma sorted_sink:
  assumes asym: "\<And>a b. lt a b \<Longrightarrow> \<not> lt b a"
    and cotrans: "\<And>a b c. b \<in> S \<Longrightarrow> lt a c \<Longrightarrow> lt a b \<or> lt b c"
  shows "set front \<subseteq> S \<Longrightarrow> sorted_wrt (\<lambda>a b. \<not> lt a b) front
    \<Longrightarrow> sorted_wrt (\<lambda>a b. \<not> lt a b) (sink lt x front)"
proof (induction front)
  case Nil
  show ?case by simp
next
  case (Cons y front)
  show ?case
  proof (cases "lt x y")
    case True
    have "sorted_wrt (\<lambda>a b. \<not> lt a b) (sink lt x front)"
      using Cons by simp
    moreover have "\<forall>z\<in>set (sink lt x front). \<not> lt y z"
      using Cons.prems(2) True asym by (auto simp: set_sink)
    ultimately show ?thesis using True by simp
  next
    case False
    have "\<not> lt x z" if "z \<in> set front" for z
    proof
      assume "lt x z"
      moreover have "y \<in> S" using Cons.prems(1) by simp
      ultimately have "lt x y \<or> lt y z" by (rule cotrans [rotated])
      with False Cons.prems(2) that show False by auto
    qed
    with False Cons.prems(2) show ?thesis by simp
  qed
qed

lemma foldl_sink:
  assumes asym: "\<And>a b. lt a b \<Longrightarrow> \<not> lt b a"
    and cotrans: "\<And>a b c. b \<in> S \<Longrightarrow> lt a c \<Longrightarrow> lt a b \<or> lt b c"
  shows "set front \<subseteq> S \<Longrightarrow> set data \<subseteq> S \<Longrightarrow> sorted_wrt (\<lambda>a b. \<not> lt a b) front
    \<Longrightarrow> sorted_wrt (\<lambda>a b. \<not> lt a b) (foldl (\<lambda>front x. sink lt x front) front data)"
proof (induction data arbitrary: front)
  case Nil
  then show ?case by simp
next
  case (Cons x data)
  have "sorted_wrt (\<lambda>a b. \<not> lt a b) (sink lt x front)"
    using Cons.prems by (intro sorted_sink [OF asym cotrans])
  moreover have "set (sink lt x front) \<subseteq> S"
    using Cons.prems by (simp add: set_sink)
  ultimately show ?case using Cons.prems by (simp add: Cons.IH)
qed

lemma mset_foldl_sink:
  "mset (foldl (\<lambda>front x. sink lt x front) front data) = mset front + mset data"
  by (induction data arbitrary: front) (simp_all add: mset_sink)

lemma mset_insertionSort: "mset (insertionSort lt data) = mset data"
  by (simp add: insertionSort_def mset_foldl_sink)

lemma sorted_insertionSort:
  assumes "\<And>a b. lt a b \<Longrightarrow> \<not> lt b a"
    and "\<And>a b c. b \<in> S \<Longrightarrow> lt a c \<Longrightarrow> lt a b \<or> lt b c"
    and "set data \<subseteq> S"
  shows "sorted_wrt (\<lambda>a b. \<not> lt b a) (insertionSort lt data)"
  unfolding insertionSort_def sorted_wrt_rev
  by (rule foldl_sink [where S = S]) (use assms in auto)

lemma sorted_insertionSort_Less:
  assumes "\<forall>p\<in>set pts. Norm2 p \<noteq> NaN"
  shows "sorted_wrt (\<lambda>a b. \<not> Less b a) (insertionSort Less pts)"
proof (rule sorted_insertionSort [where S = "set pts"])
  show "\<not> Less b a" if "Less a b" for a b
    using that by (simp add: Less_def f64_less_asym)
  show "Less a b \<or> Less b c" if "b \<in> set pts" "Less a c" for a b c
    using that assms by (auto simp: Less_def dest: f64_less_cotrans)
qed simp

text \<open>A library that sorts a long slice by insertion meets the contract of the sort.\<close>

lemma insertion_sortContract:
  assumes "longSort lib = insertionSort Less" and "\<forall>p\<in>set pts. Norm2 p \<noteq> NaN"
  shows "sortContract lib pts"
  using sorted_insertionSort_Less [OF assms(2)]
  by (simp add: sortContract_def assms(1) mset_insertionSort)

lemma mset_sortVectors: "sortContract lib pts \<Longrightarrow> mset (sortVectors lib pts) = mset pts"
  by (simp add: sortVectors_def sortContract_def mset_insertionSort)

lemma set_sortVectors: "sortContract lib pts \<Longrightarrow> set (sortVectors lib pts) = set pts"
  by (metis mset_sortVectors set_mset_mset)

lemma length_sortVectors: "sortContract lib pts \<Longrightarrow> length (sortVectors lib pts) = length pts"
  by (metis mset_sortVectors size_mset)

lemma go_median_index: "0 < n \<Longrightarrow> (int n - 1) sdiv 2 = int ((n - 1) div 2)"
proof -
  assume "0 < n"
  then have eq: "int n - 1 = int (n - 1)" by simp
  show ?thesis
  proof (cases "n - 1 = 0")
    case True
    then show ?thesis unfolding eq by simp
  next
    case False
    then have "sgn (int (n - 1)) = 1" by simp
    then have "int (n - 1) sdiv 2 = int (n - 1) div 2"
      unfolding signed_divide_int_def by simp
    then show ?thesis unfolding eq by (simp add: zdiv_int)
  qed
qed

lemma median_index_less: "0 < n \<Longrightarrow> (n - 1) div 2 < (n::nat)"
  by arith

lemma sorted_sortVectors:
  assumes "\<forall>p\<in>set pts. Norm2 p \<noteq> NaN" and "sortContract lib pts"
  shows "sorted_wrt (\<lambda>a b. f64_le (Norm2 a) (Norm2 b)) (sortVectors lib pts)"
proof -
  have "sorted_wrt (\<lambda>a b. \<not> Less b a) (sortVectors lib pts)"
  proof (cases "length pts \<le> 12")
    case True
    with sorted_insertionSort_Less [OF assms(1)] show ?thesis
      by (simp add: sortVectors_def)
  next
    case False
    with assms(2) show ?thesis
      by (simp add: sortVectors_def sortContract_def)
  qed
  moreover have "f64_le (Norm2 a) (Norm2 b)"
    if "a \<in> set (sortVectors lib pts)" "b \<in> set (sortVectors lib pts)" "\<not> Less b a" for a b
    using that assms by (simp add: set_sortVectors Less_def not_less_f64_le)
  ultimately show ?thesis
    by (rule sorted_wrt_mono_rel [rotated])
qed

lemma getMedianPoint_index:
  assumes "pts \<noteq> []" and "sortContract lib pts"
  shows "getMedianPoint lib pts = Inr (sortVectors lib pts ! ((length pts - 1) div 2))"
proof -
  have pos: "0 < length pts" using assms(1) by simp
  show ?thesis
    using go_median_index [OF pos] median_index_less [OF pos]
    by (simp add: getMedianPoint_def Let_def length_sortVectors [OF assms(2)])
qed

lemma Norm2_getClosestPoint_not_NaN: "Norm2 (getClosestPoint cloud) \<noteq> NaN"
  using getClosestPoint_cases [of cloud] f64_less_not_NaN by (auto simp: Norm2_zeroVector)

lemma concat_groups: "concat (groups ns work) = work"
  by (induction ns arbitrary: work) simp_all

lemma medianFromPointClouds_eq:
  "medianFromPointClouds lib clouds =
     (case groupWorkErr lib of
        Some err \<Rightarrow> Inl err
      | None \<Rightarrow>
          if clouds = [] then Inl (Error ''point cloud list is empty, could not find median point'')
          else getMedianPoint lib (map getClosestPoint clouds))"
proof -
  have "concat (map (map getClosestPoint) (groups ns work)) = map getClosestPoint work" for ns work
    by (simp add: map_concat [symmetric] concat_groups)
  then show ?thesis
    by (simp add: medianFromPointClouds_def GroupWorkParallel_def Let_def split: option.splits)
qed

lemma candidates_not_NaN: "\<forall>p\<in>set (map getClosestPoint clouds). Norm2 p \<noteq> NaN"
  by (simp add: Norm2_getClosestPoint_not_NaN)

lemma ascending_same_distances:
  assumes "sorted_wrt (\<lambda>a b. f64_le (Norm2 a) (Norm2 b)) s"
    and "sorted_wrt (\<lambda>a b. f64_le (Norm2 a) (Norm2 b)) s'"
    and "mset s = mset s'"
  shows "map Norm2 s = map Norm2 s'"
proof (rule ascending_unique)
  show "sorted_wrt f64_le (map Norm2 s)" "sorted_wrt f64_le (map Norm2 s')"
    using assms(1,2) by (simp_all add: sorted_wrt_map)
  show "mset (map Norm2 s) = mset (map Norm2 s')"
    using assms(3) by simp
qed

lemma median_distance_permutation:
  assumes "mset pts' = mset pts" and "\<forall>p\<in>set pts. Norm2 p \<noteq> NaN"
    and "sortContract lib pts" and "sortContract lib pts'"
  shows "map_sum id Norm2 (getMedianPoint lib pts') = map_sum id Norm2 (getMedianPoint lib pts)"
proof (cases "pts = []")
  case True
  with assms(1) show ?thesis by simp
next
  case False
  with assms(1) have ne: "pts' \<noteq> []" by auto
  have len: "length pts' = length pts"
    using assms(1) by (metis size_mset)
  have "set pts' = set pts"
    using assms(1) by (metis set_mset_mset)
  with assms(2) have nn: "\<forall>p\<in>set pts'. Norm2 p \<noteq> NaN" by simp
  have "map Norm2 (sortVectors lib pts') = map Norm2 (sortVectors lib pts)"
    using sorted_sortVectors [OF nn assms(4)] sorted_sortVectors [OF assms(2,3)]
    by (rule ascending_same_distances) (simp add: mset_sortVectors assms)
  moreover have "(length pts - 1) div 2 < length (sortVectors lib pts)"
    "(length pts - 1) div 2 < length (sortVectors lib pts')"
    using False median_index_less [of "length pts"]
    by (simp_all add: length_sortVectors [OF assms(3)] length_sortVectors [OF assms(4)] len)
  ultimately have "Norm2 (sortVectors lib pts' ! ((length pts - 1) div 2))
      = Norm2 (sortVectors lib pts ! ((length pts - 1) div 2))"
    by (metis nth_map)
  then show ?thesis
    by (simp add: getMedianPoint_index [OF False assms(3)] getMedianPoint_index [OF ne assms(4)] len)
qed

lemma getMedianPoint_member:
  assumes "pts \<noteq> []" and "sortContract lib pts"
  shows "projr (getMedianPoint lib pts) \<in> set pts"
proof -
  have "sortVectors lib pts ! ((length pts - 1) div 2) \<in> set (sortVectors lib pts)"
    using assms(1) median_index_less [of "length pts"]
    by (intro nth_mem) (simp add: length_sortVectors [OF assms(2)])
  then show ?thesis
    by (simp add: getMedianPoint_index [OF assms] set_sortVectors [OF assms(2)])
qed

lemma getClosestPoint_single:
  "f64_less (Norm2 p) MaxFloat64 \<Longrightarrow> getClosestPoint [p] = p"
  by (simp add: getClosestPoint_def closestStep_pair)

text \<open>
  The sort leaves the points \<open>(1, 2\<^sup>-\<^sup>3\<^sup>0, 0)\<close> and \<open>(1, 0, 0)\<close> in the order it finds them in:
  their squared distances are the same float64.
\<close>

lemma sortVectors_rounding_tie:
  "sortVectors lib [NewVector (Fin 1) (Fin (1 / 2 ^ 30)) (Fin 0), NewVector (Fin 1) (Fin 0) (Fin 0)]
     = [NewVector (Fin 1) (Fin (1 / 2 ^ 30)) (Fin 0), NewVector (Fin 1) (Fin 0) (Fin 0)]"
  by (simp add: sortVectors_def insertionSort_def Less_def Norm2_axis Norm2_rounding_tie)

lemma thirteenPoints_explicit:
  "thirteenPoints =
     [NewVector (Fin 13) (Fin 0) (Fin 0), NewVector (Fin 1) (Fin 0) (Fin 0),
      NewVector (Fin 12) (Fin 0) (Fin 0), NewVector (Fin 2) (Fin 0) (Fin 0),
      NewVector (Fin 11) (Fin 0) (Fin 0), NewVector (Fin 3) (Fin 0) (Fin 0),
      NewVector (Fin 10) (Fin 0) (Fin 0), NewVector (Fin 4) (Fin 0) (Fin 0),
      NewVector (Fin 9) (Fin 0) (Fin 0), NewVector (Fin 5) (Fin 0) (Fin 0),
      NewVector (Fin 8) (Fin 0) (Fin 0), NewVector (Fin 6) (Fin 0) (Fin 0),
      NewVector (Fin 7) (Fin 0) (Fin 0)]"
  by (simp add: thirteenPoints_def)

lemma Norm2_thirteen:
  "Norm2 (NewVector (Fin 1) (Fin 0) (Fin 0)) = Fin 1"
  "Norm2 (NewVector (Fin 2) (Fin 0) (Fin 0)) = Fin 4"
  "Norm2 (NewVector (Fin 3) (Fin 0) (Fin 0)) = Fin 9"
  "Norm2 (NewVector (Fin 4) (Fin 0) (Fin 0)) = Fin 16"
  "Norm2 (NewVector (Fin 5) (Fin 0) (Fin 0)) = Fin 25"
  "Norm2 (NewVector (Fin 6) (Fin 0) (Fin 0)) = Fin 36"
  "Norm2 (NewVector (Fin 7) (Fin 0) (Fin 0)) = Fin 49"
  "Norm2 (NewVector (Fin 8) (Fin 0) (Fin 0)) = Fin 64"
  "Norm2 (NewVector (Fin 9) (Fin 0) (Fin 0)) = Fin 81"
  "Norm2 (NewVector (Fin 10) (Fin 0) (Fin 0)) = Fin 100"
  "Norm2 (NewVector (Fin 11) (Fin 0) (Fin 0)) = Fin 121"
  "Norm2 (NewVector (Fin 12) (Fin 0) (Fin 0)) = Fin 144"
  "Norm2 (NewVector (Fin 13) (Fin 0) (Fin 0)) = Fin 169"
  by (simp_all add: Norm2_NewVector_Fin round64_small)

lemma thirteenPoints_candidates:
  "map getClosestPoint (map (\<lambda>p. [p]) thirteenPoints) = thirteenPoints"
  unfolding thirteenPoints_explicit
  by (simp add: getClosestPoint_single Norm2_thirteen MaxFloat64_def small_less_MaxFinite)

lemma thirteenPoints_sorted:
  "longSort lib = insertionSort Less \<Longrightarrow>
   sortVectors lib thirteenPoints =
     [NewVector (Fin 1) (Fin 0) (Fin 0), NewVector (Fin 2) (Fin 0) (Fin 0),
      NewVector (Fin 3) (Fin 0) (Fin 0), NewVector (Fin 4) (Fin 0) (Fin 0),
      NewVector (Fin 5) (Fin 0) (Fin 0), NewVector (Fin 6) (Fin 0) (Fin 0),
      NewVector (Fin 7) (Fin 0) (Fin 0), NewVector (Fin 8) (Fin 0) (Fin 0),
      NewVector (Fin 9) (Fin 0) (Fin 0), NewVector (Fin 10) (Fin 0) (Fin 0),
      NewVector (Fin 11) (Fin 0) (Fin 0), NewVector (Fin 12) (Fin 0) (Fin 0),
      NewVector (Fin 13) (Fin 0) (Fin 0)]"
  unfolding thirteenPoints_explicit
  by (simp add: sortVectors_def insertionSort_def Less_def Norm2_thirteen)

text \<open>
  Claim C2. A candidate set is the list of the closest points of some clouds. When it is
  not empty and has \<open>k\<close> elements, \<open>sortVectors\<close> rearranges it in ascending order of squared
  distance, \<open>getMedianPoint\<close> returns the element at index \<open>(k - 1) div 2\<close> of that
  arrangement, and this element is one of the candidates. For even \<open>k\<close> the index is
  \<open>k div 2 - 1\<close>, the lower of the two middle positions; for odd \<open>k\<close> as many positions follow
  it as precede it. Up to twelve candidates the sort is the insertion sort above; on more
  candidates it is the library's, which is required to meet the contract of \<^verbatim>\<open>sort.Sort\<close>.
\<close>

theorem getMedianPoint_lower_median:
  assumes "pts = map getClosestPoint clouds" and "pts \<noteq> []" and "sortContract lib pts"
  shows "mset (sortVectors lib pts) = mset pts \<and>
         sorted_wrt (\<lambda>a b. f64_le (Norm2 a) (Norm2 b)) (sortVectors lib pts) \<and>
         getMedianPoint lib pts = Inr (sortVectors lib pts ! ((length pts - 1) div 2)) \<and>
         projr (getMedianPoint lib pts) \<in> set pts \<and>
         (if even (length pts) then (length pts - 1) div 2 = length pts div 2 - 1
          else (length pts - 1) div 2 = length pts - 1 - (length pts - 1) div 2)"
proof -
  have "\<forall>p\<in>set pts. Norm2 p \<noteq> NaN"
    unfolding assms(1) by (rule candidates_not_NaN)
  then have "sorted_wrt (\<lambda>a b. f64_le (Norm2 a) (Norm2 b)) (sortVectors lib pts)"
    using assms(3) by (rule sorted_sortVectors)
  moreover have "0 < length pts" using assms(2) by simp
  then have "if even (length pts) then (length pts - 1) div 2 = length pts div 2 - 1
          else (length pts - 1) div 2 = length pts - 1 - (length pts - 1) div 2"
    by (auto elim!: evenE oddE)
  ultimately show ?thesis
    using getMedianPoint_index [OF assms(2,3)] getMedianPoint_member [OF assms(2,3)]
    by (simp add: mset_sortVectors [OF assms(3)])
qed

theorem getMedianPoint_lower_median_witness:
  "[NewVector (Fin 3) (Fin 0) (Fin 0), NewVector (Fin 1) (Fin 0) (Fin 0),
    NewVector (Fin 0) (Fin 2) (Fin 0), NewVector (Fin 0) (Fin 0) (Fin 4)]
     = map getClosestPoint
        [[NewVector (Fin 3) (Fin 0) (Fin 0)], [NewVector (Fin 1) (Fin 0) (Fin 0)],
         [NewVector (Fin 0) (Fin 2) (Fin 0)], [NewVector (Fin 0) (Fin 0) (Fin 4)]] \<and>
   sortContract oneGroup
     [NewVector (Fin 3) (Fin 0) (Fin 0), NewVector (Fin 1) (Fin 0) (Fin 0),
      NewVector (Fin 0) (Fin 2) (Fin 0), NewVector (Fin 0) (Fin 0) (Fin 4)] \<and>
   sortVectors oneGroup
     [NewVector (Fin 3) (Fin 0) (Fin 0), NewVector (Fin 1) (Fin 0) (Fin 0),
      NewVector (Fin 0) (Fin 2) (Fin 0), NewVector (Fin 0) (Fin 0) (Fin 4)]
     = [NewVector (Fin 1) (Fin 0) (Fin 0), NewVector (Fin 0) (Fin 2) (Fin 0),
        NewVector (Fin 3) (Fin 0) (Fin 0), NewVector (Fin 0) (Fin 0) (Fin 4)] \<and>
   getMedianPoint oneGroup
     [NewVector (Fin 3) (Fin 0) (Fin 0), NewVector (Fin 1) (Fin 0) (Fin 0),
      NewVector (Fin 0) (Fin 2) (Fin 0), NewVector (Fin 0) (Fin 0) (Fin 4)]
     = Inr (NewVector (Fin 0) (Fin 2) (Fin 0)) \<and>
   thirteenPoints = map getClosestPoint (map (\<lambda>p. [p]) thirteenPoints) \<and>
   12 < length thirteenPoints \<and>
   sortContract oneGroup thirteenPoints \<and>
   getMedianPoint oneGroup thirteenPoints = Inr (NewVector (Fin 7) (Fin 0) (Fin 0))"
proof -
  let ?pts = "[NewVector (Fin 3) (Fin 0) (Fin 0), NewVector (Fin 1) (Fin 0) (Fin 0),
    NewVector (Fin 0) (Fin 2) (Fin 0), NewVector (Fin 0) (Fin 0) (Fin 4)]"
  let ?clouds = "[[NewVector (Fin 3) (Fin 0) (Fin 0)], [NewVector (Fin 1) (Fin 0) (Fin 0)],
         [NewVector (Fin 0) (Fin 2) (Fin 0)], [NewVector (Fin 0) (Fin 0) (Fin 4)]]"
  have lib: "longSort oneGroup = insertionSort Less"
    by (simp add: oneGroup_def)
  have cand: "?pts = map getClosestPoint ?clouds"
    by (simp add: getClosestPoint_single Norm2_axis MaxFloat64_def small_less_MaxFinite)
  have ne: "?pts \<noteq> []" by simp
  have contract: "sortContract oneGroup ?pts"
    by (simp add: sortContract_def)
  have sorted: "sortVectors oneGroup ?pts =
       [NewVector (Fin 1) (Fin 0) (Fin 0), NewVector (Fin 0) (Fin 2) (Fin 0),
        NewVector (Fin 3) (Fin 0) (Fin 0), NewVector (Fin 0) (Fin 0) (Fin 4)]"
    by (simp add: sortVectors_def insertionSort_def Less_def Norm2_axis)
  from getMedianPoint_lower_median [OF cand ne contract]
  have "getMedianPoint oneGroup ?pts = Inr (sortVectors oneGroup ?pts ! ((length ?pts - 1) div 2))"
    by blast
  then have median: "getMedianPoint oneGroup ?pts = Inr (NewVector (Fin 0) (Fin 2) (Fin 0))"
    unfolding sorted by simp
  have cand13: "thirteenPoints = map getClosestPoint (map (\<lambda>p. [p]) thirteenPoints)"
    by (simp only: thirteenPoints_candidates)
  have len13: "length thirteenPoints = 13"
    by (simp add: thirteenPoints_def)
  then have ne13: "thirteenPoints \<noteq> []" and long: "12 < length thirteenPoints"
    by auto
  have "\<forall>p\<in>set thirteenPoints. Norm2 p \<noteq> NaN"
    unfolding thirteenPoints_explicit by (simp add: Norm2_thirteen)
  with lib have contract13: "sortContract oneGroup thirteenPoints"
    by (rule insertion_sortContract)
  from getMedianPoint_lower_median [OF cand13 ne13 contract13]
  have "getMedianPoint oneGroup thirteenPoints
      = Inr (sortVectors oneGroup thirteenPoints ! ((length thirteenPoints - 1) div 2))"
    by blast
  then have median13: "getMedianPoint oneGroup thirteenPoints = Inr (NewVector (Fin 7) (Fin 0) (Fin 0))"
    unfolding thirteenPoints_sorted [OF lib] len13 by simp
  from cand contract sorted median cand13 long contract13 median13 show ?thesis
    by blast
qed

text \<open>
  Claim C3, as amended. When the list of clouds is permuted, the squared distance of the
  selected point is the same (and so is the error, when there is one). The selected point
  itself is the same when no two different candidates have the same squared distance. On
  more than twelve clouds the sort is the library's, required to meet the contract of
  \<^verbatim>\<open>sort.Sort\<close> on the candidates of either list.
\<close>

theorem medianFromPointClouds_permutation:
  assumes "mset clouds' = mset clouds"
    and "sortContract lib (map getClosestPoint clouds)"
    and "sortContract lib (map getClosestPoint clouds')"
  shows "map_sum id Norm2 (medianFromPointClouds lib clouds')
           = map_sum id Norm2 (medianFromPointClouds lib clouds) \<and>
         (inj_on Norm2 (getClosestPoint ` set clouds) \<longrightarrow>
            medianFromPointClouds lib clouds' = medianFromPointClouds lib clouds)"
proof (cases "groupWorkErr lib = None \<and> clouds \<noteq> []")
  case False
  moreover have "clouds' = [] \<longleftrightarrow> clouds = []"
    using assms(1) by (metis mset_zero_iff)
  ultimately show ?thesis
    by (auto simp: medianFromPointClouds_eq split: option.splits)
next
  case True
  define pts pts' where "pts = map getClosestPoint clouds" and "pts' = map getClosestPoint clouds'"
  have ne: "pts \<noteq> []" "pts' \<noteq> []"
    using True assms(1) by (auto simp: pts_def pts'_def)
  have perm: "mset pts' = mset pts"
    using assms(1) by (simp add: pts_def pts'_def)
  have contract: "sortContract lib pts" "sortContract lib pts'"
    using assms(2,3) by (simp_all add: pts_def pts'_def)
  have res: "medianFromPointClouds lib clouds = getMedianPoint lib pts"
    "medianFromPointClouds lib clouds' = getMedianPoint lib pts'"
    using True ne by (simp_all add: medianFromPointClouds_eq pts_def pts'_def)
  have "\<forall>p\<in>set pts. Norm2 p \<noteq> NaN"
    unfolding pts_def by (rule candidates_not_NaN)
  with perm have dist: "map_sum id Norm2 (getMedianPoint lib pts') = map_sum id Norm2 (getMedianPoint lib pts)"
    using contract by (rule median_distance_permutation)
  have same: "getMedianPoint lib pts' = getMedianPoint lib pts"
    if "inj_on Norm2 (getClosestPoint ` set clouds)"
  proof -
    obtain r r' where r: "getMedianPoint lib pts = Inr r" "getMedianPoint lib pts' = Inr r'"
      using getMedianPoint_index ne contract by blast
    have "r \<in> set pts" "r' \<in> set pts'"
      using getMedianPoint_member [OF ne(1) contract(1)] getMedianPoint_member [OF ne(2) contract(2)] r
      by simp_all
    moreover have "set pts' = set pts" using perm by (metis set_mset_mset)
    ultimately have "r \<in> getClosestPoint ` set clouds" "r' \<in> getClosestPoint ` set clouds"
      by (simp_all add: pts_def)
    moreover have "Norm2 r' = Norm2 r" using dist r by simp
    ultimately have "r' = r" using that by (meson inj_onD)
    with r show ?thesis by simp
  qed
  show ?thesis using dist same unfolding res by simp
qed

theorem medianFromPointClouds_permutation_witness:
  "mset (rev (map (\<lambda>p. [p]) thirteenPoints)) = mset (map (\<lambda>p. [p]) thirteenPoints) \<and>
   12 < length (map getClosestPoint (map (\<lambda>p. [p]) thirteenPoints)) \<and>
   sortContract perItem (map getClosestPoint (map (\<lambda>p. [p]) thirteenPoints)) \<and>
   sortContract perItem (map getClosestPoint (rev (map (\<lambda>p. [p]) thirteenPoints))) \<and>
   inj_on Norm2 (getClosestPoint ` set (map (\<lambda>p. [p]) thirteenPoints)) \<and>
   medianFromPointClouds perItem (map (\<lambda>p. [p]) thirteenPoints)
     = Inr (NewVector (Fin 7) (Fin 0) (Fin 0)) \<and>
   medianFromPointClouds perItem (rev (map (\<lambda>p. [p]) thirteenPoints))
     = Inr (NewVector (Fin 7) (Fin 0) (Fin 0)) \<and>
   mset [[NewVector (Fin 0) (Fin 2) (Fin 0)],
         [NewVector (Fin 3) (Fin 0) (Fin 0), NewVector (Fin 5) (Fin 0) (Fin 0)],
         [NewVector (Fin 1) (Fin 0) (Fin 0)]]
     = mset [[NewVector (Fin 3) (Fin 0) (Fin 0), NewVector (Fin 5) (Fin 0) (Fin 0)],
             [NewVector (Fin 1) (Fin 0) (Fin 0)], [NewVector (Fin 0) (Fin 2) (Fin 0)]] \<and>
   inj_on Norm2 (getClosestPoint `
     set [[NewVector (Fin 3) (Fin 0) (Fin 0), NewVector (Fin 5) (Fin 0) (Fin 0)],
          [NewVector (Fin 1) (Fin 0) (Fin 0)], [NewVector (Fin 0) (Fin 2) (Fin 0)]]) \<and>
   medianFromPointClouds oneGroup
     [[NewVector (Fin 3) (Fin 0) (Fin 0), NewVector (Fin 5) (Fin 0) (Fin 0)],
      [NewVector (Fin 1) (Fin 0) (Fin 0)], [NewVector (Fin 0) (Fin 2) (Fin 0)]]
     = Inr (NewVector (Fin 0) (Fin 2) (Fin 0)) \<and>
   medianFromPointClouds oneGroup
     [[NewVector (Fin 0) (Fin 2) (Fin 0)],
      [NewVector (Fin 3) (Fin 0) (Fin 0), NewVector (Fin 5) (Fin 0) (Fin 0)],
      [NewVector (Fin 1) (Fin 0) (Fin 0)]]
     = Inr (NewVector (Fin 0) (Fin 2) (Fin 0))"
proof -
  let ?clouds = "[[NewVector (Fin 3) (Fin 0) (Fin 0), NewVector (Fin 5) (Fin 0) (Fin 0)],
             [NewVector (Fin 1) (Fin 0) (Fin 0)], [NewVector (Fin 0) (Fin 2) (Fin 0)]]"
  let ?clouds' = "[[NewVector (Fin 0) (Fin 2) (Fin 0)],
         [NewVector (Fin 3) (Fin 0) (Fin 0), NewVector (Fin 5) (Fin 0) (Fin 0)],
         [NewVector (Fin 1) (Fin 0) (Fin 0)]]"
  let ?many = "map (\<lambda>p. [p]) thirteenPoints"
  have perm: "mset ?clouds' = mset ?clouds" by simp
  have two: "getClosestPoint [NewVector (Fin 3) (Fin 0) (Fin 0), NewVector (Fin 5) (Fin 0) (Fin 0)]
      = NewVector (Fin 3) (Fin 0) (Fin 0)"
    by (simp add: getClosestPoint_def closestStep_pair Norm2_axis MaxFloat64_def small_less_MaxFinite)
  have cand: "map getClosestPoint ?clouds = [NewVector (Fin 3) (Fin 0) (Fin 0),
      NewVector (Fin 1) (Fin 0) (Fin 0), NewVector (Fin 0) (Fin 2) (Fin 0)]"
    by (simp add: two getClosestPoint_single Norm2_axis MaxFloat64_def small_less_MaxFinite)
  have contract: "sortContract oneGroup (map getClosestPoint ?clouds)"
    "sortContract oneGroup (map getClosestPoint ?clouds')"
    by (simp_all add: sortContract_def)
  have "distinct (map Norm2 (map getClosestPoint ?clouds))"
    unfolding cand by (simp add: Norm2_axis)
  then have "inj_on Norm2 (set (map getClosestPoint ?clouds))"
    unfolding distinct_map by blast
  then have inj: "inj_on Norm2 (getClosestPoint ` set ?clouds)"
    by (simp only: set_map)
  have median: "medianFromPointClouds oneGroup ?clouds = Inr (NewVector (Fin 0) (Fin 2) (Fin 0))"
    by (simp add: medianFromPointClouds_eq oneGroup_def getMedianPoint_def signed_divide_int_def sortVectors_def
        insertionSort_def Less_def two getClosestPoint_single Norm2_axis MaxFloat64_def small_less_MaxFinite)
  from medianFromPointClouds_permutation [OF perm contract] inj
  have "medianFromPointClouds oneGroup ?clouds' = medianFromPointClouds oneGroup ?clouds"
    by blast
  with median have median': "medianFromPointClouds oneGroup ?clouds' = Inr (NewVector (Fin 0) (Fin 2) (Fin 0))"
    by simp
  have lib: "longSort perItem = insertionSort Less" "groupWorkErr perItem = None"
    by (simp_all add: perItem_def)
  have perm13: "mset (rev ?many) = mset ?many"
    by (rule mset_rev)
  have len13: "length thirteenPoints = 13"
    by (simp add: thirteenPoints_def)
  then have long: "12 < length (map getClosestPoint ?many)"
    by simp
  have nn: "\<forall>p\<in>set (map getClosestPoint cs). Norm2 p \<noteq> NaN" for cs
    by (rule candidates_not_NaN)
  have contract13: "sortContract perItem (map getClosestPoint ?many)"
    "sortContract perItem (map getClosestPoint (rev ?many))"
    using lib(1) nn by (rule insertion_sortContract)+
  have "distinct (map Norm2 (map getClosestPoint ?many))"
    unfolding thirteenPoints_candidates unfolding thirteenPoints_explicit
    by (simp add: Norm2_thirteen)
  then have "inj_on Norm2 (set (map getClosestPoint ?many))"
    unfolding distinct_map by blast
  then have inj13: "inj_on Norm2 (getClosestPoint ` set ?many)"
    by (simp only: set_map)
  have some: "?many \<noteq> []"
    using len13 by auto
  have "medianFromPointClouds perItem ?many = getMedianPoint perItem (map getClosestPoint ?many)"
    using some by (simp add: medianFromPointClouds_eq lib(2) del: map_map)
  also have "\<dots> = getMedianPoint perItem thirteenPoints"
    by (simp only: thirteenPoints_candidates)
  also have "\<dots> = Inr (sortVectors perItem thirteenPoints ! ((length thirteenPoints - 1) div 2))"
    using contract13(1) len13 unfolding thirteenPoints_candidates
    by (intro getMedianPoint_index) auto
  also have "\<dots> = Inr (NewVector (Fin 7) (Fin 0) (Fin 0))"
    unfolding thirteenPoints_sorted [OF lib(1)] len13 by simp
  finally have median13: "medianFromPointClouds perItem ?many = Inr (NewVector (Fin 7) (Fin 0) (Fin 0))" .
  from medianFromPointClouds_permutation [OF perm13 contract13] inj13
  have "medianFromPointClouds perItem (rev ?many) = medianFromPointClouds perItem ?many"
    by blast
  with median13
  have median13': "medianFromPointClouds perItem (rev ?many) = Inr (NewVector (Fin 7) (Fin 0) (Fin 0))"
    by simp
  from perm13 long contract13 inj13 median13 median13' perm inj median median' show ?thesis
    by blast
qed

text \<open>
  Claim C3 as stated fails: the candidates \<open>(1, 0, 0)\<close> and \<open>(0, 1, 0)\<close> have the same squared
  distance, the sort leaves them in the order of their clouds, and the element at index
  \<open>(2 - 1) / 2 = 0\<close> is the candidate of whichever cloud comes first.
\<close>

theorem medianFromPointClouds_permutation_counterexample:
  "mset [[NewVector (Fin 0) (Fin 1) (Fin 0)], [NewVector (Fin 1) (Fin 0) (Fin 0)]]
     = mset [[NewVector (Fin 1) (Fin 0) (Fin 0)], [NewVector (Fin 0) (Fin 1) (Fin 0)]] \<and>
   medianFromPointClouds oneGroup
     [[NewVector (Fin 1) (Fin 0) (Fin 0)], [NewVector (Fin 0) (Fin 1) (Fin 0)]]
     = Inr (NewVector (Fin 1) (Fin 0) (Fin 0)) \<and>
   medianFromPointClouds oneGroup
     [[NewVector (Fin 0) (Fin 1) (Fin 0)], [NewVector (Fin 1) (Fin 0) (Fin 0)]]
     = Inr (NewVector (Fin 0) (Fin 1) (Fin 0)) \<and>
   NewVector (Fin 1) (Fin 0) (Fin 0) \<noteq> NewVector (Fin 0) (Fin 1) (Fin 0)"
proof -
  have "medianFromPointClouds oneGroup
     [[NewVector (Fin 1) (Fin 0) (Fin 0)], [NewVector (Fin 0) (Fin 1) (Fin 0)]]
     = Inr (NewVector (Fin 1) (Fin 0) (Fin 0))"
    "medianFromPointClouds oneGroup
     [[NewVector (Fin 0) (Fin 1) (Fin 0)], [NewVector (Fin 1) (Fin 0) (Fin 0)]]
     = Inr (NewVector (Fin 0) (Fin 1) (Fin 0))"
    by (simp_all add: medianFromPointClouds_def GroupWorkParallel_def oneGroup_def getMedianPoint_def signed_divide_int_def
        sortVectors_def insertionSort_def Less_def getClosestPoint_single Norm2_axis MaxFloat64_def small_less_MaxFinite)
  moreover have "NewVector (Fin 1) (Fin 0) (Fin 0) \<noteq> NewVector (Fin 0) (Fin 1) (Fin 0)"
    by (simp add: NewVector_def)
  ultimately show ?thesis by simp
qed

section \<open>The segmenter: proofs\<close>

lemma queryLoop_all_ok:
  "\<forall>k. calls \<le> k \<and> k < calls + nat (n - i) \<longrightarrow> (\<exists>pc. NextPointCloud src k = Inr pc) \<Longrightarrow>
   queryLoop src n i clouds calls =
     (Inr (clouds @ filter (\<lambda>pc. Size pc \<noteq> 0)
             (map (\<lambda>k. projr (NextPointCloud src k)) [calls ..< calls + nat (n - i)])),
      calls + nat (n - i))"
proof (induction src n i clouds calls rule: queryLoop.induct)
  case (1 src n i clouds calls)
  let ?kept = "\<lambda>ks. filter (\<lambda>pc. Size pc \<noteq> 0) (map (\<lambda>k. projr (NextPointCloud src k)) ks)"
  show ?case
  proof (cases "i < n")
    case False
    then show ?thesis by (subst queryLoop.simps) simp
  next
    case True
    define m where "m = nat (n - (i + 1))"
    have step: "nat (n - i) = Suc m"
      using True by (simp add: m_def)
    have "calls \<le> calls \<and> calls < calls + nat (n - i)"
      unfolding step by simp
    with "1.prems" obtain nxtPC where nxt: "NextPointCloud src calls = Inr nxtPC"
      by blast
    have rest: "\<forall>k. Suc calls \<le> k \<and> k < Suc calls + nat (n - (i + 1)) \<longrightarrow>
        (\<exists>pc. NextPointCloud src k = Inr pc)"
      using "1.prems" unfolding step m_def [symmetric] by simp
    have "[calls ..< Suc calls + m] = calls # [Suc calls ..< Suc calls + m]"
      by (subst upt_rec) simp
    then have kept: "?kept [calls ..< Suc calls + m] =
        (if Size nxtPC = 0 then [] else [nxtPC]) @ ?kept [Suc calls ..< Suc calls + m]"
      by (simp add: nxt)
    have total: "calls + nat (n - i) = Suc calls + m"
      unfolding step by simp
    show ?thesis
    proof (cases "Size nxtPC = 0")
      case True
      have "queryLoop src n i clouds calls = queryLoop src n (i + 1) clouds (Suc calls)"
        by (subst queryLoop.simps) (simp add: \<open>i < n\<close> nxt True)
      also have "\<dots> = (Inr (clouds @ ?kept [Suc calls ..< Suc calls + m]), Suc calls + m)"
        using "1.IH"(1) [OF \<open>i < n\<close> nxt True rest] unfolding m_def .
      finally show ?thesis by (simp only: kept total True simp_thms if_True append_Nil)
    next
      case False
      have "queryLoop src n i clouds calls = queryLoop src n (i + 1) (clouds @ [nxtPC]) (Suc calls)"
        by (subst queryLoop.simps) (simp add: \<open>i < n\<close> nxt False)
      also have "\<dots> = (Inr ((clouds @ [nxtPC]) @ ?kept [Suc calls ..< Suc calls + m]), Suc calls + m)"
        using "1.IH"(2) [OF \<open>i < n\<close> nxt False rest] unfolding m_def .
      finally show ?thesis by (simp only: kept total False simp_thms if_False append_assoc)
    qed
  qed
qed

lemma queryLoop_fail:
  "calls \<le> j \<Longrightarrow> j < calls + nat (n - i) \<Longrightarrow>
   \<forall>k. calls \<le> k \<and> k < j \<longrightarrow> (\<exists>pc. NextPointCloud src k = Inr pc) \<Longrightarrow>
   NextPointCloud src j = Inl e \<Longrightarrow>
   queryLoop src n i clouds calls = (Inl e, Suc j)"
proof (induction src n i clouds calls rule: queryLoop.induct)
  case (1 src n i clouds calls)
  from "1.prems"(1,2) have "i < n" by (cases "i < n") simp_all
  then have step: "nat (n - i) = Suc (nat (n - (i + 1)))" by simp
  show ?case
  proof (cases "j = calls")
    case True
    with "1.prems"(4) \<open>i < n\<close> show ?thesis
      by (subst queryLoop.simps) simp
  next
    case False
    with "1.prems"(1) have later: "Suc calls \<le> j" by simp
    with "1.prems"(3) obtain nxtPC where nxt: "NextPointCloud src calls = Inr nxtPC"
      by (metis Suc_le_lessD le_refl)
    have bound: "j < Suc calls + nat (n - (i + 1))"
      using "1.prems"(2) step by simp
    have rest: "\<forall>k. Suc calls \<le> k \<and> k < j \<longrightarrow> (\<exists>pc. NextPointCloud src k = Inr pc)"
      using "1.prems"(3) by simp
    show ?thesis
    proof (cases "Size nxtPC = 0")
      case True
      from "1.IH"(1) [OF \<open>i < n\<close> nxt True later bound rest "1.prems"(4)] show ?thesis
        by (subst queryLoop.simps) (simp add: \<open>i < n\<close> nxt True)
    next
      case False
      from "1.IH"(2) [OF \<open>i < n\<close> nxt False later bound rest "1.prems"(4)] show ?thesis
        by (subst queryLoop.simps) (simp add: \<open>i < n\<close> nxt False)
    qed
  qed
qed

lemma snd_segmenter_of_loop:
  "0 \<le> NumQueries conf \<Longrightarrow> queryLoop src (NumQueries conf) 0 [] 0 = (r, calls) \<Longrightarrow>
   snd (segmenter lib conf src) = calls"
  by (simp add: segmenter_def Let_def split: sum.splits option.splits)

lemma segmenter_loop_error:
  "0 \<le> NumQueries conf \<Longrightarrow> queryLoop src (NumQueries conf) 0 [] 0 = (Inl e, calls) \<Longrightarrow>
   segmenter lib conf src = (Inl e, calls)"
  by (simp add: segmenter_def)

text \<open>
  Claim C4. The attempts are numbered from 1, the calls of \<^verbatim>\<open>NextPointCloud\<close> from 0. When
  the attempts before attempt \<open>i\<close> succeed and attempt \<open>i\<close>, one of the \<^verbatim>\<open>NumQueries\<close>
  attempts, fails with the error \<open>e\<close>, the segmenter returns \<open>e\<close> itself, without any
  object, after exactly \<open>i\<close> calls: none of the remaining calls is made. When no attempt
  fails, the segmenter makes exactly \<^verbatim>\<open>NumQueries\<close> calls.
\<close>

theorem segmenter_fails_fast:
  "(1 \<le> i \<and> int i \<le> NumQueries conf \<and>
    (\<forall>k<i - 1. \<exists>pc. NextPointCloud src k = Inr pc) \<and> NextPointCloud src (i - 1) = Inl e
      \<longrightarrow> segmenter lib conf src = (Inl e, i)) \<and>
   ((\<forall>k. int k < NumQueries conf \<longrightarrow> (\<exists>pc. NextPointCloud src k = Inr pc))
      \<longrightarrow> snd (segmenter lib conf src) = nat (NumQueries conf))"
proof (intro conjI impI)
  assume fails: "1 \<le> i \<and> int i \<le> NumQueries conf \<and>
    (\<forall>k<i - 1. \<exists>pc. NextPointCloud src k = Inr pc) \<and> NextPointCloud src (i - 1) = Inl e"
  then have "queryLoop src (NumQueries conf) 0 [] 0 = (Inl e, Suc (i - 1))"
    by (intro queryLoop_fail) auto
  moreover have "0 \<le> NumQueries conf" using fails by simp
  ultimately show "segmenter lib conf src = (Inl e, i)"
    using fails by (simp add: segmenter_loop_error)
next
  assume ok: "\<forall>k. int k < NumQueries conf \<longrightarrow> (\<exists>pc. NextPointCloud src k = Inr pc)"
  show "snd (segmenter lib conf src) = nat (NumQueries conf)"
  proof (cases "0 \<le> NumQueries conf")
    case False
    then show ?thesis by (simp add: segmenter_def)
  next
    case True
    have "\<forall>k. 0 \<le> k \<and> k < 0 + nat (NumQueries conf - 0) \<longrightarrow> (\<exists>pc. NextPointCloud src k = Inr pc)"
      using ok by simp
    from queryLoop_all_ok [OF this, of "[]"] True show ?thesis
      by (intro snd_segmenter_of_loop) simp_all
  qed
qed

theorem segmenter_fails_fast_witness:
  "int 3 \<le> NumQueries tenQueries \<and>
   NextPointCloud failingCamera (3 - 1) = Inl (Error ''camera disconnected'') \<and>
   segmenter oneGroup tenQueries failingCamera = (Inl (Error ''camera disconnected''), 3) \<and>
   snd (segmenter oneGroup tenQueries rampCamera) = 10"
proof -
  have fails: "1 \<le> (3::nat) \<and> int 3 \<le> NumQueries tenQueries \<and>
    (\<forall>k<3 - 1. \<exists>pc. NextPointCloud failingCamera k = Inr pc) \<and>
    NextPointCloud failingCamera (3 - 1) = Inl (Error ''camera disconnected'')"
    by (simp add: tenQueries_def failingCamera_def)
  have ok: "\<forall>k. int k < NumQueries tenQueries \<longrightarrow> (\<exists>pc. NextPointCloud rampCamera k = Inr pc)"
    by (simp add: rampCamera_def)
  have "segmenter oneGroup tenQueries failingCamera = (Inl (Error ''camera disconnected''), 3)"
    using segmenter_fails_fast [of 3 tenQueries failingCamera "Error ''camera disconnected''" oneGroup]
      fails by blast
  moreover have "snd (segmenter oneGroup tenQueries rampCamera) = 10"
    using segmenter_fails_fast [of 3 tenQueries rampCamera "Error ''camera disconnected''" oneGroup]
      ok by (simp add: tenQueries_def)
  ultimately show ?thesis using fails ok by blast
qed

text \<open>
  Claim C5. When every one of the \<^verbatim>\<open>NumQueries\<close> calls succeeds with an empty cloud, the
  segmenter makes all the calls and fails with the error that none of the clouds contained
  any points. An empty cloud is no error: when all the \<open>n\<close> calls succeed, the loop makes
  all of them and keeps exactly the non-empty clouds, in the order they arrived.
\<close>

theorem segmenter_no_usable_samples:
  "(0 \<le> NumQueries conf \<and> (\<forall>k. int k < NumQueries conf \<longrightarrow> NextPointCloud src k = Inr [])
      \<longrightarrow> segmenter lib conf src =
            (Inl (Error ''none of the input point clouds contained any points''), nat (NumQueries conf))) \<and>
   ((\<forall>k. int k < n \<longrightarrow> (\<exists>pc. NextPointCloud src k = Inr pc))
      \<longrightarrow> queryLoop src n 0 [] 0 =
            (Inr (filter (\<lambda>pc. Size pc \<noteq> 0) (map (\<lambda>k. projr (NextPointCloud src k)) [0 ..< nat n])),
             nat n))"
proof (intro conjI impI)
  assume ok: "\<forall>k. int k < n \<longrightarrow> (\<exists>pc. NextPointCloud src k = Inr pc)"
  then have "\<forall>k. 0 \<le> k \<and> k < 0 + nat (n - 0) \<longrightarrow> (\<exists>pc. NextPointCloud src k = Inr pc)"
    by simp
  from queryLoop_all_ok [OF this, of "[]"]
  show "queryLoop src n 0 [] 0 =
      (Inr (filter (\<lambda>pc. Size pc \<noteq> 0) (map (\<lambda>k. projr (NextPointCloud src k)) [0 ..< nat n])), nat n)"
    by simp
next
  assume empty: "0 \<le> NumQueries conf \<and> (\<forall>k. int k < NumQueries conf \<longrightarrow> NextPointCloud src k = Inr [])"
  then have "\<forall>k. 0 \<le> k \<and> k < 0 + nat (NumQueries conf - 0) \<longrightarrow> (\<exists>pc. NextPointCloud src k = Inr pc)"
    by simp
  from queryLoop_all_ok [OF this, of "[]"]
  have "queryLoop src (NumQueries conf) 0 [] 0 =
      (Inr (filter (\<lambda>pc. Size pc \<noteq> 0)
         (map (\<lambda>k. projr (NextPointCloud src k)) [0 ..< nat (NumQueries conf)])), nat (NumQueries conf))"
    by simp
  moreover have "filter (\<lambda>pc. Size pc \<noteq> 0)
         (map (\<lambda>k. projr (NextPointCloud src k)) [0 ..< nat (NumQueries conf)]) = []"
    using empty by (auto simp: filter_empty_conv Size_def)
  ultimately show "segmenter lib conf src =
      (Inl (Error ''none of the input point clouds contained any points''), nat (NumQueries conf))"
    using empty by (simp add: segmenter_def)
qed

theorem segmenter_no_usable_samples_witness:
  "0 \<le> NumQueries tenQueries \<and>
   segmenter oneGroup tenQueries emptyCamera =
     (Inl (Error ''none of the input point clouds contained any points''), 10) \<and>
   queryLoop sparseCamera 4 0 [] 0 =
     (Inr [[NewVector (Fin 1) (Fin 0) (Fin 0)], [NewVector (Fin 3) (Fin 0) (Fin 0)]], 4)"
proof -
  have empty: "0 \<le> NumQueries tenQueries \<and>
      (\<forall>k. int k < NumQueries tenQueries \<longrightarrow> NextPointCloud emptyCamera k = Inr [])"
    by (simp add: tenQueries_def emptyCamera_def)
  have ok: "\<forall>k. int k < 4 \<longrightarrow> (\<exists>pc. NextPointCloud sparseCamera k = Inr pc)"
    by (simp add: sparseCamera_def)
  have "segmenter oneGroup tenQueries emptyCamera =
     (Inl (Error ''none of the input point clouds contained any points''), 10)"
    using segmenter_no_usable_samples [of tenQueries emptyCamera oneGroup 4] empty
    by (simp add: tenQueries_def)
  moreover have "[0 ..< nat 4] = [0, 1, 2, 3]"
    by (simp add: numeral_eq_Suc)
  then have "queryLoop sparseCamera 4 0 [] 0 =
     (Inr [[NewVector (Fin 1) (Fin 0) (Fin 0)], [NewVector (Fin 3) (Fin 0) (Fin 0)]], 4)"
    using segmenter_no_usable_samples [of tenQueries sparseCamera oneGroup 4] ok
    by (simp add: sparseCamera_def Size_def)
  ultimately show ?thesis using empty ok by blast
qed

text \<open>
  The scenario of ten queries that return one point each, at the distances 1 to 10: the
  segmenter makes ten calls, sorts the ten candidates and reports the point at index
  \<open>(10 - 1) / 2 = 4\<close>, the one at distance 5.
\<close>

lemma segmenter_ramp_example:
  "segmenter oneGroup tenQueries rampCamera =
     (Inr [\<lparr>PointCloud = [NewVector (Fin 5) (Fin 0) (Fin 0)],
            Geometry = \<lparr>center = NewVector (Fin 5) (Fin 0) (Fin 0), label = ''obstacle''\<rparr>\<rparr>], 10)"
proof -
  define clouds where
    "clouds = map (\<lambda>k. [NewVector (Fin (real (Suc k))) (Fin 0) (Fin 0)]) [0 ..< 10]"
  have "\<forall>k. 0 \<le> k \<and> k < 0 + nat (10 - 0) \<longrightarrow> (\<exists>pc. NextPointCloud rampCamera k = Inr pc)"
    by (simp add: rampCamera_def)
  from queryLoop_all_ok [OF this, of "[]"]
  have loop: "queryLoop rampCamera 10 0 [] 0 = (Inr clouds, 10)"
    by (simp add: clouds_def rampCamera_def Size_def filter_map comp_def)
  have explicit: "clouds =
      [[NewVector (Fin 1) (Fin 0) (Fin 0)],
       [NewVector (Fin 2) (Fin 0) (Fin 0)],
       [NewVector (Fin 3) (Fin 0) (Fin 0)],
       [NewVector (Fin 4) (Fin 0) (Fin 0)],
       [NewVector (Fin 5) (Fin 0) (Fin 0)],
       [NewVector (Fin 6) (Fin 0) (Fin 0)],
       [NewVector (Fin 7) (Fin 0) (Fin 0)],
       [NewVector (Fin 8) (Fin 0) (Fin 0)],
       [NewVector (Fin 9) (Fin 0) (Fin 0)],
       [NewVector (Fin 10) (Fin 0) (Fin 0)]]"
    by (simp add: clouds_def upt_rec)
  have norms:
    "Norm2 (NewVector (Fin 1) (Fin 0) (Fin 0)) = Fin 1"
    "Norm2 (NewVector (Fin 2) (Fin 0) (Fin 0)) = Fin 4"
    "Norm2 (NewVector (Fin 3) (Fin 0) (Fin 0)) = Fin 9"
    "Norm2 (NewVector (Fin 4) (Fin 0) (Fin 0)) = Fin 16"
    "Norm2 (NewVector (Fin 5) (Fin 0) (Fin 0)) = Fin 25"
    "Norm2 (NewVector (Fin 6) (Fin 0) (Fin 0)) = Fin 36"
    "Norm2 (NewVector (Fin 7) (Fin 0) (Fin 0)) = Fin 49"
    "Norm2 (NewVector (Fin 8) (Fin 0) (Fin 0)) = Fin 64"
    "Norm2 (NewVector (Fin 9) (Fin 0) (Fin 0)) = Fin 81"
    "Norm2 (NewVector (Fin 10) (Fin 0) (Fin 0)) = Fin 100"
    by (simp_all add: Norm2_NewVector_Fin round64_small)
  have "medianFromPointClouds oneGroup clouds = getMedianPoint oneGroup (map getClosestPoint clouds)"
    by (simp add: medianFromPointClouds_eq oneGroup_def explicit)
  also have "\<dots> = Inr (NewVector (Fin 5) (Fin 0) (Fin 0))"
    unfolding explicit
    by (simp add: getClosestPoint_single norms MaxFloat64_def small_less_MaxFinite getMedianPoint_def
        sortVectors_def insertionSort_def Less_def signed_divide_int_def)
  finally have median: "medianFromPointClouds oneGroup clouds = Inr (NewVector (Fin 5) (Fin 0) (Fin 0))" .
  have some: "clouds \<noteq> []"
    by (simp add: explicit)
  have set: "setErr oneGroup v = None" for v
    by (simp add: oneGroup_def)
  have same: "NewVector (X (NewVector x y z)) (Y (NewVector x y z)) (Z (NewVector x y z))
      = NewVector x y z" for x y z
    by (simp add: NewVector_def)
  have "NumQueries tenQueries = 10"
    by (simp add: tenQueries_def)
  then show ?thesis
    by (simp add: segmenter_def loop median some set same Let_def)
qed

section \<open>The configuration and the other methods: proofs\<close>

lemma queryLoop_error_source:
  "queryLoop src n i clouds calls = (Inl e, c) \<Longrightarrow> \<exists>k. NextPointCloud src k = Inl e"
proof (induction src n i clouds calls rule: queryLoop.induct)
  case (1 src n i clouds calls)
  from "1.prems" have "i < n"
    by (subst (asm) queryLoop.simps) (simp split: if_splits)
  show ?case
  proof (cases "NextPointCloud src calls")
    case (Inl err)
    with "1.prems" \<open>i < n\<close> have "err = e"
      by (subst (asm) queryLoop.simps) simp
    with Inl show ?thesis by blast
  next
    case (Inr nxtPC)
    show ?thesis
    proof (cases "Size nxtPC = 0")
      case True
      with "1.prems" \<open>i < n\<close> Inr have "queryLoop src n (i + 1) clouds (Suc calls) = (Inl e, c)"
        by (subst (asm) queryLoop.simps) simp
      from "1.IH"(1) [OF \<open>i < n\<close> Inr True this] show ?thesis .
    next
      case False
      with "1.prems" \<open>i < n\<close> Inr have "queryLoop src n (i + 1) (clouds @ [nxtPC]) (Suc calls) = (Inl e, c)"
        by (subst (asm) queryLoop.simps) simp
      from "1.IH"(2) [OF \<open>i < n\<close> Inr False this] show ?thesis .
    qed
  qed
qed

lemma getMedianPoint_error:
  "getMedianPoint lib pts = Inl e \<Longrightarrow> e = Panic ''index out of range''"
  by (simp add: getMedianPoint_def Let_def split: if_splits)

lemma segmenter_error_source:
  assumes "fst (segmenter lib conf src) = Inl e"
  shows "e = Panic ''makeslice: cap out of range'' \<or> (\<exists>k. NextPointCloud src k = Inl e) \<or>
         e = Error ''none of the input point clouds contained any points'' \<or>
         groupWorkErr lib = Some e \<or>
         e = Error ''point cloud list is empty, could not find median point'' \<or>
         e = Panic ''index out of range'' \<or> (\<exists>v. setErr lib v = Some e)"
proof (cases "NumQueries conf < 0")
  case True
  with assms show ?thesis by (simp add: segmenter_def)
next
  case False
  obtain r c where loop: "queryLoop src (NumQueries conf) 0 [] 0 = (r, c)"
    by (cases "queryLoop src (NumQueries conf) 0 [] 0")
  show ?thesis
  proof (cases r)
    case (Inl err)
    with assms False loop have "err = e" by (simp add: segmenter_def)
    with loop Inl queryLoop_error_source show ?thesis by blast
  next
    case (Inr clouds)
    show ?thesis
    proof (cases "medianFromPointClouds lib clouds")
      case (Inl err)
      then have "groupWorkErr lib = Some err \<or>
          err = Error ''point cloud list is empty, could not find median point'' \<or>
          err = Panic ''index out of range''"
        by (auto simp: medianFromPointClouds_eq dest: getMedianPoint_error split: option.splits if_splits)
      moreover from assms False loop Inr Inl
      have "e = Error ''none of the input point clouds contained any points'' \<or> e = err"
        by (simp add: segmenter_def split: if_splits)
      ultimately show ?thesis by blast
    next
      case (Inr median)
      with assms False loop \<open>r = Inr clouds\<close>
      have "e = Error ''none of the input point clouds contained any points'' \<or>
          setErr lib (NewVector (X median) (Y median) (Z median)) = Some e"
        by (simp add: segmenter_def Let_def split: if_splits option.splits)
      then show ?thesis by blast
    qed
  qed
qed

text \<open>
  Claim C8. \<open>Validate\<close> reads the configuration only; it has no camera to query. It
  replaces a zero \<^verbatim>\<open>NumQueries\<close> by the default 10, accepts the configuration exactly when
  the resulting value lies between 1 and 20, and otherwise returns the error about the
  number of queries. The segmenter never returns that error of its own: it can only pass
  it on from the camera or from a library, should one of them return it.
\<close>

theorem Validate_range:
  "fst (Validate config path) =
     (if 1 \<le> (if NumQueries config = 0 then 10 else NumQueries config) \<and>
         (if NumQueries config = 0 then 10 else NumQueries config) \<le> 20
      then Inr (if DefaultCamera config \<noteq> '''' then [DefaultCamera config] else [], [])
      else Inl (Error ''invalid number of queries, pick a number between 1 and 20'')) \<and>
   NumQueries (snd (Validate config path)) = (if NumQueries config = 0 then 10 else NumQueries config) \<and>
   DefaultNumQueries = 10 \<and>
   ((\<forall>k. NextPointCloud src k \<noteq> Inl (Error ''invalid number of queries, pick a number between 1 and 20'')) \<and>
    groupWorkErr lib \<noteq> Some (Error ''invalid number of queries, pick a number between 1 and 20'') \<and>
    (\<forall>v. setErr lib v \<noteq> Some (Error ''invalid number of queries, pick a number between 1 and 20''))
    \<longrightarrow> fst (segmenter lib conf src)
          \<noteq> Inl (Error ''invalid number of queries, pick a number between 1 and 20''))"
proof -
  have "fst (segmenter lib conf src) \<noteq> Inl (Error ''invalid number of queries, pick a number between 1 and 20'')"
    if "\<forall>k. NextPointCloud src k \<noteq> Inl (Error ''invalid number of queries, pick a number between 1 and 20'')"
      and "groupWorkErr lib \<noteq> Some (Error ''invalid number of queries, pick a number between 1 and 20'')"
      and "\<forall>v. setErr lib v \<noteq> Some (Error ''invalid number of queries, pick a number between 1 and 20'')"
  proof
    assume "fst (segmenter lib conf src) = Inl (Error ''invalid number of queries, pick a number between 1 and 20'')"
    from segmenter_error_source [OF this] that show False by auto
  qed
  then show ?thesis
    by (simp add: Validate_def DefaultNumQueries_def Let_def)
qed

theorem Validate_range_witness:
  "fst (Validate \<lparr>NumQueries = 25, DefaultCamera = ''''\<rparr> '''')
     = Inl (Error ''invalid number of queries, pick a number between 1 and 20'') \<and>
   fst (Validate \<lparr>NumQueries = 0, DefaultCamera = ''cam''\<rparr> '''') = Inr ([''cam''], []) \<and>
   NumQueries (snd (Validate \<lparr>NumQueries = 0, DefaultCamera = ''cam''\<rparr> '''')) = 10 \<and>
   fst (segmenter oneGroup \<lparr>NumQueries = 25, DefaultCamera = ''''\<rparr> rampCamera)
     \<noteq> Inl (Error ''invalid number of queries, pick a number between 1 and 20'')"
proof -
  have cam: "\<forall>k. NextPointCloud rampCamera k
      \<noteq> Inl (Error ''invalid number of queries, pick a number between 1 and 20'')"
    by (simp add: rampCamera_def)
  have lib: "groupWorkErr oneGroup \<noteq> Some (Error ''invalid number of queries, pick a number between 1 and 20'')"
    "\<forall>v. setErr oneGroup v \<noteq> Some (Error ''invalid number of queries, pick a number between 1 and 20'')"
    by (simp_all add: oneGroup_def)
  from Validate_range [of "\<lparr>NumQueries = 25, DefaultCamera = ''''\<rparr>" "''''" rampCamera oneGroup
      "\<lparr>NumQueries = 25, DefaultCamera = ''''\<rparr>"] cam lib
  have "fst (Validate \<lparr>NumQueries = 25, DefaultCamera = ''''\<rparr> '''')
     = Inl (Error ''invalid number of queries, pick a number between 1 and 20'')"
    "fst (segmenter oneGroup \<lparr>NumQueries = 25, DefaultCamera = ''''\<rparr> rampCamera)
     \<noteq> Inl (Error ''invalid number of queries, pick a number between 1 and 20'')"
    by simp_all
  moreover from Validate_range [of "\<lparr>NumQueries = 0, DefaultCamera = ''cam''\<rparr>" "''''" rampCamera oneGroup
      "\<lparr>NumQueries = 25, DefaultCamera = ''''\<rparr>"]
  have "fst (Validate \<lparr>NumQueries = 0, DefaultCamera = ''cam''\<rparr> '''') = Inr ([''cam''], [])"
    "NumQueries (snd (Validate \<lparr>NumQueries = 0, DefaultCamera = ''cam''\<rparr> '''')) = 10"
    by simp_all
  ultimately show ?thesis by blast
qed

lemma register_without_default:
  "DefaultCamera conf = '''' \<Longrightarrow>
   registerObstacleDistanceDetector lib (Some conf) ds =
     Inr \<lparr>segmenter_of = segmenter lib conf, defaultCamera = None, deps = ds\<rparr>"
  by (simp add: registerObstacleDistanceDetector_def)

text \<open>
  Claim C9. On a service without a default camera, \<open>GetObjectPointClouds\<close> and
  \<open>CaptureAllFromCamera\<close> with an empty camera name return the error that no camera is
  specified, without any call of \<^verbatim>\<open>NextPointCloud\<close> and without asking for an image. The
  constructor builds such a service from a configuration that names no default camera.
\<close>

theorem no_camera_specified:
  assumes "defaultCamera s = None"
  shows "GetObjectPointClouds s '''' = (Inl (Error ''no camera specified''), 0) \<and>
         CaptureAllFromCamera s '''' captureOptions = (Inl (Error ''no camera specified''), 0, 0)"
  using assms by (simp add: GetObjectPointClouds_def CaptureAllFromCamera_def)

theorem no_camera_specified_witness:
  "registerObstacleDistanceDetector oneGroup (Some tenQueries) noCameras
     = Inr \<lparr>segmenter_of = segmenter oneGroup tenQueries, defaultCamera = None, deps = noCameras\<rparr> \<and>
   defaultCamera \<lparr>segmenter_of = segmenter oneGroup tenQueries, defaultCamera = None, deps = noCameras\<rparr>
     = None \<and>
   GetObjectPointClouds
     \<lparr>segmenter_of = segmenter oneGroup tenQueries, defaultCamera = None, deps = noCameras\<rparr> ''''
     = (Inl (Error ''no camera specified''), 0) \<and>
   CaptureAllFromCamera
     \<lparr>segmenter_of = segmenter oneGroup tenQueries, defaultCamera = None, deps = noCameras\<rparr> ''''
     \<lparr>ReturnImage = True, ReturnObject = True\<rparr>
     = (Inl (Error ''no camera specified''), 0, 0)"
proof -
  let ?s = "\<lparr>segmenter_of = segmenter oneGroup tenQueries, defaultCamera = None, deps = noCameras\<rparr>"
  have built: "registerObstacleDistanceDetector oneGroup (Some tenQueries) noCameras = Inr ?s"
    by (rule register_without_default) (simp add: tenQueries_def)
  have none: "defaultCamera ?s = None" by simp
  from no_camera_specified [OF none, of "\<lparr>ReturnImage = True, ReturnObject = True\<rparr>"] built none
  show ?thesis by blast
qed

text \<open>
  Claim C10. Whatever their arguments, \<open>Detections\<close>, \<open>DetectionsFromCamera\<close>,
  \<open>Classifications\<close>, \<open>ClassificationsFromCamera\<close>, \<open>NewClientFromConn\<close> and \<open>DoCommand\<close>
  return the error \<open>errUnimplemented\<close> and no result; \<open>GetProperties\<close> reports that
  classifications and detections are not supported and that object point clouds are.
\<close>

theorem unimplemented_methods:
  "Detections_of s img extra = Inl errUnimplemented \<and>
   DetectionsFromCamera s cameraName extra = Inl errUnimplemented \<and>
   Classifications_of s img n extra = Inl errUnimplemented \<and>
   ClassificationsFromCamera s cameraName n extra = Inl errUnimplemented \<and>
   NewClientFromConn s conn remoteName name = Inl errUnimplemented \<and>
   DoCommand s cmd = Inl errUnimplemented \<and>
   errUnimplemented = Error ''obstacles distance service does not implement this method'' \<and>
   GetProperties s extra =
     Inr \<lparr>ClassificationSupported = False, DetectionSupported = False, ObjectPCDsSupported = True\<rparr>"
  by (simp add: Detections_of_def DetectionsFromCamera_def Classifications_of_def
      ClassificationsFromCamera_def NewClientFromConn_def DoCommand_def errUnimplemented_def
      GetProperties_def)

end
